theory Spec2Isabelle
  imports Complex_Main
begin

section \<open>Python values and exceptions\<close>

text \<open>
  Exceptions of the Python program are values: every function that can raise returns
  \<open>error + 'a\<close>, with \<open>Inl\<close> the exception. The string of a \<open>ValueError\<close> is its message.
\<close>

datatype error =
    KeyError
  | IndexError
  | ZeroDivisionError
  | AttributeError
  | ValueError string

text \<open>
  \<open>math.log\<close> on a Python \<open>int\<close>: the natural logarithm for a positive argument,
  \<open>ValueError: math domain error\<close> otherwise.
\<close>

definition math_log_int :: "int \<Rightarrow> error + real" where
  "math_log_int n =
     (if n \<le> 0 then Inl (ValueError ''math domain error'') else Inr (ln (real_of_int n)))"

section \<open>Floating-point values\<close>

text \<open>
  Floats are idealised: a finite float is a real number (no rounding, no overflow, no
  signed zero: a zero divisor counts as \<open>+0.0\<close>), and the three special values of IEEE
  arithmetic are kept, since the program reaches them: numpy divides by zero without
  raising, and \<open>math.log\<close> lets a NaN through.
\<close>

datatype fl = Fin real | PInf | NInf | NaN

fun fl_add :: "fl \<Rightarrow> fl \<Rightarrow> fl" where
  "fl_add (Fin x) (Fin y) = Fin (x + y)"
| "fl_add NaN b = NaN"
| "fl_add a NaN = NaN"
| "fl_add PInf NInf = NaN"
| "fl_add NInf PInf = NaN"
| "fl_add PInf b = PInf"
| "fl_add a PInf = PInf"
| "fl_add NInf b = NInf"
| "fl_add a NInf = NInf"

fun fl_mul :: "fl \<Rightarrow> fl \<Rightarrow> fl" where
  "fl_mul (Fin x) (Fin y) = Fin (x * y)"
| "fl_mul NaN b = NaN"
| "fl_mul a NaN = NaN"
| "fl_mul PInf (Fin y) = (if y = 0 then NaN else if 0 < y then PInf else NInf)"
| "fl_mul NInf (Fin y) = (if y = 0 then NaN else if 0 < y then NInf else PInf)"
| "fl_mul (Fin x) PInf = (if x = 0 then NaN else if 0 < x then PInf else NInf)"
| "fl_mul (Fin x) NInf = (if x = 0 then NaN else if 0 < x then NInf else PInf)"
| "fl_mul PInf PInf = PInf"
| "fl_mul NInf NInf = PInf"
| "fl_mul PInf NInf = NInf"
| "fl_mul NInf PInf = NInf"

text \<open>Division of numpy scalars and arrays: a zero divisor gives an infinity or NaN.\<close>

fun np_div :: "fl \<Rightarrow> fl \<Rightarrow> fl" where
  "np_div (Fin x) (Fin y) =
     (if y \<noteq> 0 then Fin (x / y) else if x = 0 then NaN else if 0 < x then PInf else NInf)"
| "np_div NaN b = NaN"
| "np_div a NaN = NaN"
| "np_div (Fin x) PInf = Fin 0"
| "np_div (Fin x) NInf = Fin 0"
| "np_div PInf (Fin y) = (if 0 \<le> y then PInf else NInf)"
| "np_div NInf (Fin y) = (if 0 \<le> y then NInf else PInf)"
| "np_div PInf b = NaN"
| "np_div NInf b = NaN"

text \<open>Division of Python floats and ints: a zero divisor raises.\<close>

definition py_div :: "fl \<Rightarrow> fl \<Rightarrow> error + fl" where
  "py_div a b = (if b = Fin 0 then Inl ZeroDivisionError else Inr (np_div a b))"

text \<open>\<open>math.log\<close> on a float: NaN and \<open>+inf\<close> pass through, anything \<open>\<le> 0\<close> raises.\<close>

fun math_log :: "fl \<Rightarrow> error + fl" where
  "math_log (Fin x) =
     (if x \<le> 0 then Inl (ValueError ''math domain error'') else Inr (Fin (ln x)))"
| "math_log PInf = Inr PInf"
| "math_log NInf = Inl (ValueError ''math domain error'')"
| "math_log NaN = Inr NaN"

text \<open>\<open>np.sum\<close> of a flat array; the sum of no element is \<open>0.0\<close>.\<close>

definition np_sum :: "fl list \<Rightarrow> fl" where
  "np_sum xs = foldr fl_add xs (Fin 0)"

text \<open>Sequencing of two computations that can raise.\<close>

definition and_then :: "error + 'a \<Rightarrow> ('a \<Rightarrow> error + 'b) \<Rightarrow> error + 'b" where
  "and_then r f = (case r of Inl e \<Rightarrow> Inl e | Inr x \<Rightarrow> f x)"

section \<open>Vectors\<close>

definition dot :: "real list \<Rightarrow> real list \<Rightarrow> real" where
  "dot v w = sum_list (map2 (*) v w)"

definition vnorm :: "real list \<Rightarrow> real" where
  "vnorm v = sqrt (dot v v)"

section \<open>models/TFIDF.py\<close>

text \<open>
  The class \<open>TFIDF\<close> keeps the transform name given to its constructor, which stores it
  unchecked. \<open>compute_idf\<close> is inherited from \<open>VectorSpaceModel\<close>, whose source is not part
  of the development: it is a field of the record.
\<close>

record tfidf =
  tf_transform :: string
  compute_idf :: "int \<Rightarrow> error + real"

definition TFIDF_init :: "(int \<Rightarrow> error + real) \<Rightarrow> string \<Rightarrow> tfidf" where
  "TFIDF_init idf name = \<lparr> tf_transform = name, compute_idf = idf \<rparr>"

definition log_tf :: "int \<Rightarrow> error + real" where
  "log_tf doc_term_freq =
     (case math_log_int doc_term_freq of
        Inl e \<Rightarrow> Inl e
      | Inr l \<Rightarrow> Inr (1 + l))"

definition unsupported_msg :: "string \<Rightarrow> string" where
  "unsupported_msg name = ''Unsupported term frequency transformation specified: '' @ name"

definition TFIDF_score :: "tfidf \<Rightarrow> int \<Rightarrow> int \<Rightarrow> int \<Rightarrow> error + real" where
  "TFIDF_score self int_doc_id query_term_id doc_term_freq =
     (case (if tf_transform self = ''log'' then log_tf doc_term_freq
            else Inl (ValueError (unsupported_msg (tf_transform self)))) of
        Inl e \<Rightarrow> Inl e
      | Inr wtf \<Rightarrow>
          (case compute_idf self query_term_id of
             Inl e \<Rightarrow> Inl e
           | Inr idf \<Rightarrow> Inr (wtf * idf)))"

section \<open>models/GeneralizedLanguageModel.py: the data\<close>

text \<open>
  The collaborators of the scorer are parameters. \<open>pyndri.Index\<close> gives the documents
  (\<open>index.document\<close>: external identifier and term stream, \<open>IndexError\<close> outside the
  collection), the dictionary and the bounds of the internal identifiers. The gensim model
  gives the vectors (\<open>wv[token]\<close>, \<open>KeyError\<close> for a token outside the vocabulary) and
  the nearest neighbours (\<open>most_similar\<close>).
\<close>

record pyndri_index =
  document :: "int \<rightharpoonup> string \<times> int list"
  dict_token2id :: "string \<rightharpoonup> int"
  dict_id2token :: "int \<rightharpoonup> string"
  document_base :: int
  maximum_document :: int

record gensim_model =
  wv :: "string \<rightharpoonup> real list"
  most_similar :: "string \<Rightarrow> nat \<Rightarrow> error + (string \<times> real) list"

text \<open>
  The attributes of a \<open>GeneralizedLanguageModel\<close>. A \<open>dict\<close> that is iterated is an
  association list in insertion order (its keys are distinct); one that is only looked up
  is a map. \<open>inverted_index\<close> is a \<open>defaultdict(dict)\<close>: every term has an inner dict, empty
  when the term was never stored. \<open>col_freq\<close> is a \<open>defaultdict(int)\<close>. \<open>doc_col\<close> is
  \<open>None\<close> by default.
\<close>

record glm =
  index :: pyndri_index
  inverted_index :: "int \<Rightarrow> (int \<rightharpoonup> int)"
  queries :: "(int \<times> int list) list"
  col_freq :: "(int \<times> int) list"
  col_size :: int
  doc_len :: "int \<rightharpoonup> int"
  lamb :: real
  alph :: real
  beta :: real
  doc_col :: "(int \<times> int list) list option"
  token2id :: "string \<rightharpoonup> int"
  id2token :: "int \<rightharpoonup> string"
  word2vec :: gensim_model
  doc_sim_sum :: "int \<rightharpoonup> fl"
  col_Nt :: "string \<rightharpoonup> string list"
  sum_nT :: "string \<rightharpoonup> fl"

text \<open>
  The files the program reads and writes: the two pickles (absent or holding a value) and
  the run files, by path.
\<close>

record files =
  doc_sim_sums_pkl :: "(int \<rightharpoonup> fl) option"
  col_Nt_pkl :: "((string \<rightharpoonup> string list) \<times> (string \<rightharpoonup> fl)) option"
  run_files :: "string \<rightharpoonup> string"

definition getitem :: "('k \<rightharpoonup> 'v) \<Rightarrow> 'k \<Rightarrow> error + 'v" where
  "getitem d k = (case d k of None \<Rightarrow> Inl KeyError | Some v \<Rightarrow> Inr v)"

text \<open>Lookup in a \<open>defaultdict(int)\<close>: a missing key reads as \<open>0\<close>.\<close>

definition getitem_default0 :: "(int \<times> int) list \<Rightarrow> int \<Rightarrow> int" where
  "getitem_default0 d k = (case map_of d k of None \<Rightarrow> 0 | Some v \<Rightarrow> v)"

definition index_document :: "glm \<Rightarrow> int \<Rightarrow> error + string \<times> int list" where
  "index_document self int_doc_id =
     (case document (index self) int_doc_id of None \<Rightarrow> Inl IndexError | Some r \<Rightarrow> Inr r)"

text \<open>\<open>self.word2vec.wv[self.id2token[term_id]]\<close>\<close>

definition embedding :: "glm \<Rightarrow> int \<Rightarrow> error + real list" where
  "embedding self term_id =
     and_then (getitem (id2token self) term_id) (\<lambda>token. getitem (wv (word2vec self)) token)"

text \<open>
  \<open>doc_model[idx, :] = v\<close>, the row being 300 wide: a vector of length 1 is broadcast,
  any other length but 300 is a \<open>ValueError\<close>.
\<close>

definition set_row :: "real list \<Rightarrow> error + real list" where
  "set_row v =
     (if length v = 300 then Inr v
      else if length v = 1 then Inr (replicate 300 (hd v))
      else Inl (ValueError ''could not broadcast input array''))"

text \<open>The loop filling \<open>doc_model\<close>, one row for each entry of the filtered term stream.\<close>

fun doc_model_rows :: "glm \<Rightarrow> int list \<Rightarrow> error + real list list" where
  "doc_model_rows self [] = Inr []"
| "doc_model_rows self (term_id # rest) =
     and_then (embedding self term_id) (\<lambda>v.
     and_then (set_row v) (\<lambda>row.
     and_then (doc_model_rows self rest) (\<lambda>rows. Inr (row # rows))))"

text \<open>\<open>doc_arr[doc_arr != 0]\<close>\<close>

definition filter_doc_arr :: "int list \<Rightarrow> int list" where
  "filter_doc_arr doc = filter (\<lambda>t. t \<noteq> 0) doc"

section \<open>The four component probabilities\<close>

definition compute_term_likelihood :: "glm \<Rightarrow> int \<Rightarrow> int \<Rightarrow> error + real" where
  "compute_term_likelihood self query_term_id int_doc_id =
     (let doc_term_freq =
            (case inverted_index self query_term_id int_doc_id of None \<Rightarrow> 0 | Some f \<Rightarrow> f)
      in and_then (getitem (doc_len self) int_doc_id) (\<lambda>dl.
           if dl = 0 then Inl ZeroDivisionError
           else Inr (real_of_int doc_term_freq / real_of_int dl)))"

definition compute_bg_likelihood :: "glm \<Rightarrow> int \<Rightarrow> error + real" where
  "compute_bg_likelihood self query_term_id =
     (let col_term_freq = getitem_default0 (col_freq self) query_term_id
      in if col_size self = 0 then Inl ZeroDivisionError
         else Inr (real_of_int col_term_freq / real_of_int (col_size self)))"

text \<open>
  \<open>compute_doc_transform\<close>. \<open>term_frequencies[idx]\<close> is the number of entries of the
  filtered stream equal to the entry at \<open>idx\<close>; \<open>np.dot\<close> needs a query vector of length
  300; the divisions are numpy's.
\<close>

definition compute_doc_transform :: "glm \<Rightarrow> int \<Rightarrow> int \<Rightarrow> int list \<Rightarrow> error + fl" where
  "compute_doc_transform self query_term_id int_doc_id doc =
     and_then (embedding self query_term_id) (\<lambda>query_vec.
     let fd = filter_doc_arr doc;
         term_frequencies = map (\<lambda>term_id. real (count_list fd term_id)) fd
     in
     and_then (doc_model_rows self fd) (\<lambda>doc_model.
     if length query_vec \<noteq> 300 then Inl (ValueError ''shapes not aligned'')
     else
       let similarities =
             map (\<lambda>row. np_div (np_div (Fin (dot row query_vec)) (Fin (vnorm row)))
                                (Fin (vnorm query_vec))) doc_model
       in
       and_then (getitem (doc_sim_sum self) int_doc_id) (\<lambda>dss.
       and_then (getitem (doc_len self) int_doc_id) (\<lambda>dl.
         Inr (np_sum (map2 (\<lambda>sim tf. np_div (fl_mul sim (Fin tf))
                                             (fl_mul dss (Fin (real_of_int dl))))
                           similarities term_frequencies))))))"

text \<open>\<open>cos_sim\<close>: \<open>np.dot\<close> of two flat vectors needs equal lengths.\<close>

definition cos_sim :: "real list \<Rightarrow> real list \<Rightarrow> error + fl" where
  "cos_sim v1 v2 =
     (if length v1 \<noteq> length v2 then Inl (ValueError ''shapes not aligned'')
      else Inr (np_div (Fin (dot v1 v2)) (Fin (vnorm v1 * vnorm v2))))"

fun col_transform_loop :: "glm \<Rightarrow> string \<Rightarrow> real list \<Rightarrow> string list \<Rightarrow> fl \<Rightarrow> error + fl" where
  "col_transform_loop self query_term query_vec [] col_transform = Inr col_transform"
| "col_transform_loop self query_term query_vec (neighbour # rest) col_transform =
     and_then (getitem (wv (word2vec self)) neighbour) (\<lambda>nvec.
     and_then (cos_sim query_vec nvec) (\<lambda>similarity.
     and_then (getitem (sum_nT self) query_term) (\<lambda>norm_sum.
     and_then (py_div similarity norm_sum) (\<lambda>q1.
     and_then (getitem (token2id self) neighbour) (\<lambda>nid.
     and_then (py_div (fl_mul q1 (Fin (real_of_int (getitem_default0 (col_freq self) nid))))
                      (Fin (real_of_int (col_size self)))) (\<lambda>q2.
       col_transform_loop self query_term query_vec rest (fl_add col_transform q2)))))))"

definition compute_col_transform :: "glm \<Rightarrow> int \<Rightarrow> error + fl" where
  "compute_col_transform self query_term_id =
     and_then (getitem (id2token self) query_term_id) (\<lambda>query_term.
     and_then (getitem (wv (word2vec self)) query_term) (\<lambda>query_vec.
     and_then (getitem (col_Nt self) query_term) (\<lambda>neighbours.
       col_transform_loop self query_term query_vec neighbours (Fin 0))))"

section \<open>The score\<close>

text \<open>The argument of \<open>math.log\<close> for one query term, its four operands in order.\<close>

definition mixture :: "glm \<Rightarrow> int \<Rightarrow> int \<Rightarrow> int list \<Rightarrow> error + fl" where
  "mixture self query_term_id int_doc_id doc =
     and_then (compute_term_likelihood self query_term_id int_doc_id) (\<lambda>pt.
     and_then (compute_doc_transform self query_term_id int_doc_id doc) (\<lambda>dt.
     and_then (compute_col_transform self query_term_id) (\<lambda>ct.
     and_then (compute_bg_likelihood self query_term_id) (\<lambda>bg.
       Inr (fl_add (fl_add (fl_add (Fin (lamb self * pt)) (fl_mul (Fin (alph self)) dt))
                           (fl_mul (Fin (beta self)) ct))
                   (Fin ((1 - lamb self - alph self - beta self) * bg)))))))"

fun score_loop :: "glm \<Rightarrow> int \<Rightarrow> int list \<Rightarrow> int list \<Rightarrow> fl \<Rightarrow> error + fl" where
  "score_loop self int_doc_id doc [] score = Inr score"
| "score_loop self int_doc_id doc (query_term_id # rest) score =
     and_then (mixture self query_term_id int_doc_id doc) (\<lambda>p.
     and_then (math_log p) (\<lambda>l.
       score_loop self int_doc_id doc rest (fl_add score l)))"

definition score :: "glm \<Rightarrow> int \<Rightarrow> int list \<Rightarrow> error + fl" where
  "score self int_doc_id query =
     and_then (index_document self int_doc_id) (\<lambda>(ext_doc_id, doc).
       score_loop self int_doc_id doc query (Fin 0))"

section \<open>The similarity caches\<close>

text \<open>
  \<open>np.triu_indices(n, k)\<close>: the index pairs \<open>(a, b)\<close> of an \<open>n \<times> n\<close> matrix with
  \<open>b - a \<ge> k\<close>, row by row; none when \<open>n \<le> 0\<close>.
\<close>

definition triu_indices :: "int \<Rightarrow> nat \<Rightarrow> (nat \<times> nat) list" where
  "triu_indices n k =
     filter (\<lambda>(a, b). a + k \<le> b) (List.product [0 ..< nat n] [0 ..< nat n])"

text \<open>An entry of \<open>doc_model.dot(doc_model.T) / norms / norms.T\<close>.\<close>

definition cos_sim_entry :: "real list list \<Rightarrow> nat \<Rightarrow> nat \<Rightarrow> fl" where
  "cos_sim_entry doc_model i j =
     np_div (np_div (Fin (dot (doc_model ! i) (doc_model ! j))) (Fin (vnorm (doc_model ! i))))
            (Fin (vnorm (doc_model ! j)))"

text \<open>
  The body of the loop of \<open>compute_doc_sim_sum\<close> for one document: the entries of
  \<open>cos_sim[1:, 1:]\<close> at \<open>np.triu_indices(filter_doc_arr_len - 1, 1)\<close>, summed.
\<close>

definition doc_sim_sum_of :: "glm \<Rightarrow> int \<Rightarrow> error + fl" where
  "doc_sim_sum_of self int_doc_id =
     and_then (index_document self int_doc_id) (\<lambda>(ext_doc_id, doc).
     and_then (doc_model_rows self (filter_doc_arr doc)) (\<lambda>doc_model.
       let upper_indices = triu_indices (int (length doc_model) - 1) 1
       in Inr (np_sum (map (\<lambda>(a, b). cos_sim_entry doc_model (a + 1) (b + 1))
                           upper_indices))))"

fun doc_sim_sum_loop :: "glm \<Rightarrow> int list \<Rightarrow> (int \<rightharpoonup> fl) \<Rightarrow> error + (int \<rightharpoonup> fl)" where
  "doc_sim_sum_loop self [] doc_sim_sums = Inr doc_sim_sums"
| "doc_sim_sum_loop self (int_doc_id # rest) doc_sim_sums =
     and_then (doc_sim_sum_of self int_doc_id) (\<lambda>s.
       doc_sim_sum_loop self rest (doc_sim_sums(int_doc_id \<mapsto> s)))"

text \<open>\<open>np.unique\<close> of the chained values of \<open>doc_col\<close>: sorted, without repetition.\<close>

definition unique_ids :: "(int \<times> int list) list \<Rightarrow> int list" where
  "unique_ids dc = sort (remdups (concat (map snd dc)))"

definition compute_doc_sim_sum :: "glm \<Rightarrow> error + (int \<rightharpoonup> fl)" where
  "compute_doc_sim_sum self =
     (case doc_col self of
        None \<Rightarrow> Inl AttributeError
      | Some dc \<Rightarrow> doc_sim_sum_loop self (unique_ids dc) Map.empty)"

text \<open>\<open>sum([cos_sim(wv[query_term], wv[n]) for n in neighbours])\<close>\<close>

fun neighbour_sims :: "glm \<Rightarrow> string \<Rightarrow> string list \<Rightarrow> error + fl list" where
  "neighbour_sims self query_term [] = Inr []"
| "neighbour_sims self query_term (ngh_term # rest) =
     and_then (getitem (wv (word2vec self)) query_term) (\<lambda>qv.
     and_then (getitem (wv (word2vec self)) ngh_term) (\<lambda>nv.
     and_then (cos_sim qv nv) (\<lambda>c.
     and_then (neighbour_sims self query_term rest) (\<lambda>cs. Inr (c # cs)))))"

type_synonym neighbour_cache = "(string \<rightharpoonup> string list) \<times> (string \<rightharpoonup> fl)"

fun col_nt_terms :: "glm \<Rightarrow> nat \<Rightarrow> int list \<Rightarrow> neighbour_cache \<Rightarrow> error + neighbour_cache" where
  "col_nt_terms self n_terms [] cache = Inr cache"
| "col_nt_terms self n_terms (query_term_id # rest) (term_neighbours, term_neighbours_sum) =
     and_then (getitem (id2token self) query_term_id) (\<lambda>query_term.
     and_then (most_similar (word2vec self) query_term n_terms) (\<lambda>similar.
     let neighbours = map fst similar in
     and_then (neighbour_sims self query_term neighbours) (\<lambda>sims.
       col_nt_terms self n_terms rest
         (term_neighbours(query_term \<mapsto> neighbours),
          term_neighbours_sum(query_term \<mapsto> foldl fl_add (Fin 0) sims)))))"

fun col_nt_queries ::
  "glm \<Rightarrow> nat \<Rightarrow> (int \<times> int list) list \<Rightarrow> neighbour_cache \<Rightarrow> error + neighbour_cache" where
  "col_nt_queries self n_terms [] cache = Inr cache"
| "col_nt_queries self n_terms ((query_id, int_doc_ids) # rest) cache =
     and_then (getitem (map_of (queries self)) query_id) (\<lambda>query.
     and_then (col_nt_terms self n_terms query cache) (\<lambda>cache'.
       col_nt_queries self n_terms rest cache'))"

definition compute_col_nt :: "glm \<Rightarrow> nat \<Rightarrow> error + neighbour_cache" where
  "compute_col_nt self n_terms =
     (case doc_col self of
        None \<Rightarrow> Inl AttributeError
      | Some dc \<Rightarrow> col_nt_queries self n_terms dc (Map.empty, Map.empty))"

section \<open>The constructor\<close>

text \<open>
  \<open>__init__\<close> stores its arguments, takes \<open>col_size = sum(col_freq)\<close> (the sum of what
  iterating the dict gives: its keys), reads the dictionary of the index and the gensim
  model, and loads each cache from its pickle or, when the file is missing, computes and
  pickles it. It returns the object and the files.
\<close>

definition GLM_init ::
  "files \<Rightarrow> gensim_model \<Rightarrow> pyndri_index \<Rightarrow> (int \<Rightarrow> (int \<rightharpoonup> int)) \<Rightarrow> (int \<times> int list) list \<Rightarrow>
   (int \<times> int) list \<Rightarrow> (int \<rightharpoonup> int) \<Rightarrow> real \<Rightarrow> real \<Rightarrow> real \<Rightarrow> (int \<times> int list) list option \<Rightarrow>
   error + glm \<times> files" where
  "GLM_init fs w2v idx ii qs cf dl l a b dc =
     (let self0 = \<lparr> index = idx, inverted_index = ii, queries = qs, col_freq = cf,
                    col_size = sum_list (map fst cf), doc_len = dl,
                    lamb = l, alph = a, beta = b, doc_col = dc,
                    token2id = dict_token2id idx, id2token = dict_id2token idx,
                    word2vec = w2v, doc_sim_sum = Map.empty,
                    col_Nt = Map.empty, sum_nT = Map.empty \<rparr>
      in
      and_then (case doc_sim_sums_pkl fs of
                  Some dss \<Rightarrow> Inr (self0\<lparr>doc_sim_sum := dss\<rparr>, fs)
                | None \<Rightarrow>
                    and_then (compute_doc_sim_sum self0) (\<lambda>dss.
                      Inr (self0\<lparr>doc_sim_sum := dss\<rparr>, fs\<lparr>doc_sim_sums_pkl := Some dss\<rparr>)))
        (\<lambda>(self1, fs1).
           case col_Nt_pkl fs1 of
             Some (nt, sn) \<Rightarrow> Inr (self1\<lparr>col_Nt := nt, sum_nT := sn\<rparr>, fs1)
           | None \<Rightarrow>
               and_then (compute_col_nt self1 3) (\<lambda>(nt, sn).
                 Inr (self1\<lparr>col_Nt := nt, sum_nT := sn\<rparr>,
                      fs1\<lparr>col_Nt_pkl := Some (nt, sn)\<rparr>))))"

section \<open>The retrieval driver\<close>

type_synonym run_data = "(int \<times> (fl \<times> string) list) list"
type_synonym run_scores = "int \<times> string \<rightharpoonup> fl"

text \<open>\<open>data[query_id].append(x)\<close> on a \<open>defaultdict(list)\<close>, and reading it.\<close>

fun dd_append :: "run_data \<Rightarrow> int \<Rightarrow> fl \<times> string \<Rightarrow> run_data" where
  "dd_append [] k x = [(k, [x])]"
| "dd_append ((k', xs) # rest) k x =
     (if k' = k then (k', xs @ [x]) # rest else (k', xs) # dd_append rest k x)"

definition dd_get :: "run_data \<Rightarrow> int \<Rightarrow> (fl \<times> string) list" where
  "dd_get data k = (case map_of data k of None \<Rightarrow> [] | Some xs \<Rightarrow> xs)"

text \<open>
  \<open>doc_is_in_inverted_index\<close>: some query term has the document in its inner dict.
\<close>

definition doc_is_in_inverted_index :: "glm \<Rightarrow> int list \<Rightarrow> int \<Rightarrow> bool" where
  "doc_is_in_inverted_index self query int_doc_id =
     list_ex (\<lambda>query_term_id. inverted_index self query_term_id int_doc_id \<noteq> None) query"

text \<open>
  The body shared by the two loops of \<open>run\<close>, for one query and one document: score the
  document when it is in the inverted index, then read \<open>scores[query_id][ext_doc_id]\<close>
  (a nested \<open>defaultdict\<close>: \<open>0\<close> when nothing was stored) and append when it is not \<open>0\<close>.
\<close>

definition visit ::
  "glm \<Rightarrow> int \<Rightarrow> int list \<Rightarrow> int \<Rightarrow> string \<Rightarrow> run_scores \<times> run_data \<Rightarrow>
   error + run_scores \<times> run_data" where
  "visit self query_id query int_doc_id ext_doc_id st =
     (case st of (scores, data) \<Rightarrow>
        and_then (if doc_is_in_inverted_index self query int_doc_id
                  then and_then (score self int_doc_id query) (\<lambda>s.
                         Inr (scores((query_id, ext_doc_id) \<mapsto> s)))
                  else Inr scores) (\<lambda>scores'.
          let s = (case scores' (query_id, ext_doc_id) of None \<Rightarrow> Fin 0 | Some s \<Rightarrow> s)
          in Inr (scores', if s \<noteq> Fin 0 then dd_append data query_id (s, ext_doc_id) else data)))"

text \<open>With \<open>doc_col\<close>: for each query of \<open>doc_col\<close>, its documents in order.\<close>

fun rerank_docs ::
  "glm \<Rightarrow> int \<Rightarrow> int list \<Rightarrow> int list \<Rightarrow> run_scores \<times> run_data \<Rightarrow> error + run_scores \<times> run_data" where
  "rerank_docs self query_id query [] st = Inr st"
| "rerank_docs self query_id query (int_doc_id # rest) st =
     and_then (index_document self int_doc_id) (\<lambda>(ext_doc_id, doc).
     and_then (visit self query_id query int_doc_id ext_doc_id st) (\<lambda>st'.
       rerank_docs self query_id query rest st'))"

fun rerank_queries ::
  "glm \<Rightarrow> (int \<times> int list) list \<Rightarrow> run_scores \<times> run_data \<Rightarrow> error + run_scores \<times> run_data" where
  "rerank_queries self [] st = Inr st"
| "rerank_queries self ((query_id, int_doc_ids) # rest) st =
     and_then (getitem (map_of (queries self)) query_id) (\<lambda>query.
     and_then (rerank_docs self query_id query int_doc_ids st) (\<lambda>st'.
       rerank_queries self rest st'))"

text \<open>Without \<open>doc_col\<close>: for each document of the collection, every query.\<close>

fun full_queries ::
  "glm \<Rightarrow> int \<Rightarrow> string \<Rightarrow> (int \<times> int list) list \<Rightarrow> run_scores \<times> run_data \<Rightarrow>
   error + run_scores \<times> run_data" where
  "full_queries self int_doc_id ext_doc_id [] st = Inr st"
| "full_queries self int_doc_id ext_doc_id ((query_id, query) # rest) st =
     and_then (visit self query_id query int_doc_id ext_doc_id st) (\<lambda>st'.
       full_queries self int_doc_id ext_doc_id rest st')"

fun full_docs :: "glm \<Rightarrow> int list \<Rightarrow> run_scores \<times> run_data \<Rightarrow> error + run_scores \<times> run_data" where
  "full_docs self [] st = Inr st"
| "full_docs self (int_doc_id # rest) st =
     and_then (index_document self int_doc_id) (\<lambda>(ext_doc_id, doc).
     and_then (full_queries self int_doc_id ext_doc_id (queries self) st) (\<lambda>st'.
       full_docs self rest st'))"

definition run_out_path :: "string \<Rightarrow> string" where
  "run_out_path model_name = ''../retrievals/'' @ model_name @ ''.run''"

text \<open>
  \<open>run\<close>. \<open>write_run\<close> stands for \<open>Helper.write_run\<close>, whose source is not part of the
  development: it gives the text written for a model name, the data and the cut-off. The
  result is \<open>None\<close> when the run file exists, the data otherwise; the files come back as
  the call leaves them.
\<close>

definition run ::
  "(string \<Rightarrow> run_data \<Rightarrow> nat \<Rightarrow> string) \<Rightarrow> glm \<Rightarrow> files \<Rightarrow> string \<Rightarrow>
   (int \<times> int list) list option \<Rightarrow> (error + run_data option) \<times> files" where
  "run write_run self fs model_name dc =
     (if run_files fs (run_out_path model_name) \<noteq> None then (Inr None, fs)
      else
        case (case dc of
                None \<Rightarrow> full_docs self [document_base (index self) ..
                                         maximum_document (index self) - 1] (Map.empty, [])
              | Some c \<Rightarrow> rerank_queries self c (Map.empty, [])) of
          Inl e \<Rightarrow> (Inl e, fs)
        | Inr (scores, data) \<Rightarrow>
            (Inr (Some data),
             fs\<lparr>run_files := (run_files fs)(run_out_path model_name \<mapsto>
                                  write_run model_name data 1000)\<rparr>))"

section \<open>The formulas of the specification\<close>

text \<open>The cosine similarity of two vectors, as a real number.\<close>

definition cosine :: "real list \<Rightarrow> real list \<Rightarrow> real" where
  "cosine v w = dot v w / (vnorm v * vnorm w)"


text \<open>
  The document transform as the specification words it: each distinct term of the
  filtered stream once, its similarity to the query vector times its frequency, the sum
  divided by the similarity sum times the length. \<open>E\<close> gives the vector of a term.
\<close>

definition doc_transform_distinct ::
  "(int \<Rightarrow> real list) \<Rightarrow> real list \<Rightarrow> int list \<Rightarrow> real \<Rightarrow> real \<Rightarrow> real" where
  "doc_transform_distinct E query_vec fd s dl =
     (\<Sum>t \<leftarrow> remdups fd. cosine (E t) query_vec * real (count_list fd t)) / (s * dl)"

section \<open>A small collection\<close>

text \<open>
  Three tokens with unit vectors of length 300, three documents (the zeros are padding),
  two queries. The caches are those the constructor computes for this collection.
\<close>

definition e1 :: "real list" where
  "e1 = 1 # replicate 299 0"

definition e2 :: "real list" where
  "e2 = 0 # 1 # replicate 298 0"

definition e3 :: "real list" where
  "e3 = 3 / 5 # 4 / 5 # replicate 298 0"

definition ex_index :: pyndri_index where
  "ex_index =
     \<lparr> document = [1 \<mapsto> (''D1'', [5, 0, 5, 5]), 2 \<mapsto> (''D2'', [5, 6, 5, 6]),
                    3 \<mapsto> (''D3'', [0, 6])],
       dict_token2id = [''a'' \<mapsto> 5, ''b'' \<mapsto> 6, ''c'' \<mapsto> 7],
       dict_id2token = [5 \<mapsto> ''a'', 6 \<mapsto> ''b'', 7 \<mapsto> ''c''],
       document_base = 1, maximum_document = 4 \<rparr>"

definition ex_w2v :: gensim_model where
  "ex_w2v =
     \<lparr> wv = [''a'' \<mapsto> e1, ''b'' \<mapsto> e2, ''c'' \<mapsto> e3],
       most_similar = (\<lambda>token n. Inr (take n
          (if token = ''a'' then [(''c'', 3 / 5), (''b'', 0)]
           else if token = ''b'' then [(''c'', 4 / 5), (''a'', 0)]
           else [(''b'', 4 / 5), (''a'', 3 / 5)]))) \<rparr>"

definition ex_inverted_index :: "int \<Rightarrow> (int \<rightharpoonup> int)" where
  "ex_inverted_index t =
     (if t = 5 then [1 \<mapsto> 3, 2 \<mapsto> 2] else if t = 6 then [2 \<mapsto> 2, 3 \<mapsto> 1] else Map.empty)"

definition ex_queries :: "(int \<times> int list) list" where
  "ex_queries = [(10, [5, 6]), (11, [6])]"

definition ex_col_freq :: "(int \<times> int) list" where
  "ex_col_freq = [(5, 5), (6, 3)]"

definition ex_doc_len :: "int \<rightharpoonup> int" where
  "ex_doc_len = [1 \<mapsto> 3, 2 \<mapsto> 4, 3 \<mapsto> 1]"

definition ex_doc_col :: "(int \<times> int list) list" where
  "ex_doc_col = [(10, [1, 2]), (11, [3])]"

definition ex_glm :: "real \<Rightarrow> real \<Rightarrow> real \<Rightarrow> glm" where
  "ex_glm l a b =
     \<lparr> index = ex_index, inverted_index = ex_inverted_index, queries = ex_queries,
       col_freq = ex_col_freq, col_size = 11, doc_len = ex_doc_len,
       lamb = l, alph = a, beta = b, doc_col = Some ex_doc_col,
       token2id = [''a'' \<mapsto> 5, ''b'' \<mapsto> 6, ''c'' \<mapsto> 7],
       id2token = [5 \<mapsto> ''a'', 6 \<mapsto> ''b'', 7 \<mapsto> ''c''],
       word2vec = ex_w2v,
       doc_sim_sum = [1 \<mapsto> Fin 1, 2 \<mapsto> Fin 1, 3 \<mapsto> Fin 0],
       col_Nt = [''a'' \<mapsto> [''c'', ''b''], ''b'' \<mapsto> [''c'', ''a'']],
       sum_nT = [''a'' \<mapsto> Fin (3 / 5), ''b'' \<mapsto> Fin (4 / 5)] \<rparr>"

text \<open>No pickle and no run file yet; and the same with a run file for \<open>glm\<close>.\<close>

definition ex_files :: files where
  "ex_files = \<lparr> doc_sim_sums_pkl = None, col_Nt_pkl = None, run_files = Map.empty \<rparr>"

definition ex_files_run :: files where
  "ex_files_run =
     \<lparr> doc_sim_sums_pkl = None, col_Nt_pkl = None,
       run_files = [run_out_path ''glm'' \<mapsto> ''10 Q0 D2 1 0.5 glm''] \<rparr>"

text \<open>A stand-in for \<open>Helper.write_run\<close>: one line for each query that has results.\<close>

definition ex_write_run :: "string \<Rightarrow> run_data \<Rightarrow> nat \<Rightarrow> string" where
  "ex_write_run model_name data k = concat (map (\<lambda>(q, rs). model_name @ ''; '') data)"

text \<open>The vectors of the terms of the small collection.\<close>

definition ex_E :: "int \<Rightarrow> real list" where
  "ex_E t = (if t = 5 then e1 else e2)"

text \<open>The files after the constructor has pickled the two caches.\<close>

definition ex_files_cached :: files where
  "ex_files_cached =
     \<lparr> doc_sim_sums_pkl = Some [1 \<mapsto> Fin 1, 2 \<mapsto> Fin 1, 3 \<mapsto> Fin 0],
       col_Nt_pkl = Some ([''a'' \<mapsto> [''c'', ''b''], ''b'' \<mapsto> [''c'', ''a'']],
                          [''a'' \<mapsto> Fin (3 / 5), ''b'' \<mapsto> Fin (4 / 5)]),
       run_files = Map.empty \<rparr>"

section \<open>The pairs the driver considers\<close>

text \<open>
  The query and document pairs of a run: with \<open>doc_col\<close>, the documents listed for the
  query; without, every query with every document of the collection.
\<close>

definition considered :: "glm \<Rightarrow> (int \<times> int list) list option \<Rightarrow> int \<Rightarrow> int \<Rightarrow> bool" where
  "considered self dc query_id int_doc_id =
     (case dc of
        None \<Rightarrow> query_id \<in> fst ` set (queries self) \<and>
                 document_base (index self) \<le> int_doc_id \<and>
                 int_doc_id < maximum_document (index self)
      | Some c \<Rightarrow> list_ex (\<lambda>(k, ds). k = query_id \<and> int_doc_id \<in> set ds) c)"

text \<open>
  What holds of the entries for one query and one external identifier while the loops
  run: a stored score and a recorded pair come from scoring the document.
\<close>

definition recorded_ok ::
  "glm \<Rightarrow> int \<Rightarrow> int list \<Rightarrow> int \<Rightarrow> string \<Rightarrow> run_scores \<times> run_data \<Rightarrow> bool" where
  "recorded_ok self qid q d ext st =
     (case st of (scores, data) \<Rightarrow>
        (\<forall>s. scores (qid, ext) = Some s \<longrightarrow>
               doc_is_in_inverted_index self q d \<and> score self d q = Inr s) \<and>
        (\<forall>s. (s, ext) \<in> set (dd_get data qid) \<longrightarrow>
               doc_is_in_inverted_index self q d \<and> score self d q = Inr s \<and> s \<noteq> Fin 0))"

text \<open>A candidate collection for one query.\<close>

definition ex_rerank :: "(int \<times> int list) list" where
  "ex_rerank = [(11, [1, 2])]"

text \<open>
  The lookups of \<open>run\<close> outside \<open>score\<close> succeed: every document it reads is in the
  index and, with a candidate collection, every query identifier is in the queries.
\<close>

definition lookups_succeed :: "glm \<Rightarrow> (int \<times> int list) list option \<Rightarrow> bool" where
  "lookups_succeed self dc =
     (case dc of
        None \<Rightarrow> list_all (\<lambda>d. document (index self) d \<noteq> None)
                   [document_base (index self) .. maximum_document (index self) - 1]
      | Some c \<Rightarrow> list_all (\<lambda>(k, ds). map_of (queries self) k \<noteq> None \<and>
                                  list_all (\<lambda>d. document (index self) d \<noteq> None) ds) c)"

section \<open>Evaluation of the small collection\<close>

lemma and_then_simps [simp]:
  "and_then (Inl e) f = Inl e" "and_then (Inr x) f = f x"
  by (simp_all add: and_then_def)

lemma dot_Nil [simp]: "dot [] w = 0" "dot v [] = 0"
  by (simp_all add: dot_def)

lemma dot_Cons [simp]: "dot (x # v) (y # w) = x * y + dot v w"
  by (simp add: dot_def)

lemma dot_replicate_0 [simp]: "dot (replicate n 0) w = 0" "dot v (replicate n 0) = 0"
proof -
  show "dot (replicate n 0) w = 0"
    by (induction n arbitrary: w) (simp, case_tac w, simp_all)
  show "dot v (replicate n 0) = 0"
    by (induction n arbitrary: v) (simp, case_tac v, simp_all)
qed

lemma ex_vec_length [simp]: "length e1 = 300" "length e2 = 300" "length e3 = 300"
  by (simp_all add: e1_def e2_def e3_def)

lemma ex_vec_dot [simp]:
  "dot e1 e1 = 1" "dot e1 e2 = 0" "dot e2 e1 = 0" "dot e2 e2 = 1"
  "dot e1 e3 = 3 / 5" "dot e3 e1 = 3 / 5" "dot e2 e3 = 4 / 5" "dot e3 e2 = 4 / 5"
  "dot e3 e3 = 1"
  by (simp_all add: e1_def e2_def e3_def power2_eq_square)

lemma ex_vec_norm [simp]: "vnorm e1 = 1" "vnorm e2 = 1" "vnorm e3 = 1"
  by (simp_all add: vnorm_def)

lemma ex_glm_fields [simp]:
  "index (ex_glm l a b) = ex_index"
  "inverted_index (ex_glm l a b) = ex_inverted_index"
  "queries (ex_glm l a b) = ex_queries"
  "col_freq (ex_glm l a b) = ex_col_freq"
  "col_size (ex_glm l a b) = 11"
  "doc_len (ex_glm l a b) = ex_doc_len"
  "lamb (ex_glm l a b) = l" "alph (ex_glm l a b) = a" "beta (ex_glm l a b) = b"
  "doc_col (ex_glm l a b) = Some ex_doc_col"
  "token2id (ex_glm l a b) = [''a'' \<mapsto> 5, ''b'' \<mapsto> 6, ''c'' \<mapsto> 7]"
  "id2token (ex_glm l a b) = [5 \<mapsto> ''a'', 6 \<mapsto> ''b'', 7 \<mapsto> ''c'']"
  "word2vec (ex_glm l a b) = ex_w2v"
  "doc_sim_sum (ex_glm l a b) = [1 \<mapsto> Fin 1, 2 \<mapsto> Fin 1, 3 \<mapsto> Fin 0]"
  "col_Nt (ex_glm l a b) = [''a'' \<mapsto> [''c'', ''b''], ''b'' \<mapsto> [''c'', ''a'']]"
  "sum_nT (ex_glm l a b) = [''a'' \<mapsto> Fin (3 / 5), ''b'' \<mapsto> Fin (4 / 5)]"
  by (simp_all add: ex_glm_def)

lemma ex_wv [simp]:
  "wv ex_w2v ''a'' = Some e1" "wv ex_w2v ''b'' = Some e2" "wv ex_w2v ''c'' = Some e3"
  by (simp_all add: ex_w2v_def)

lemma ex_document [simp]:
  "document ex_index 1 = Some (''D1'', [5, 0, 5, 5])"
  "document ex_index 2 = Some (''D2'', [5, 6, 5, 6])"
  "document ex_index 3 = Some (''D3'', [0, 6])"
  by (simp_all add: ex_index_def)

lemma ex_embedding [simp]:
  "embedding (ex_glm l a b) 5 = Inr e1" "embedding (ex_glm l a b) 6 = Inr e2"
  by (simp_all add: embedding_def getitem_def)

lemma ex_set_row [simp]: "set_row e1 = Inr e1" "set_row e2 = Inr e2" "set_row e3 = Inr e3"
  by (simp_all add: set_row_def)

section \<open>Lemmas on the similarity sums\<close>


lemma doc_model_rows_ok:
  "\<forall>t \<in> set ts. embedding self t = Inr (E t) \<and> length (E t) = 300 \<Longrightarrow>
   doc_model_rows self ts = Inr (map E ts)"
  by (induction ts) (simp_all add: set_row_def)









lemma doc_sim_sum_loop_other:
  "doc_sim_sum_loop self ds acc = Inr dss \<Longrightarrow> d \<notin> set ds \<Longrightarrow> dss d = acc d"
proof (induction ds arbitrary: acc)
  case Nil
  then show ?case by simp
next
  case (Cons x xs)
  then show ?case
    by (cases "doc_sim_sum_of self x") auto
qed

lemma doc_sim_sum_loop_maps:
  "doc_sim_sum_loop self ds acc = Inr dss \<Longrightarrow> d \<in> set ds \<Longrightarrow>
   \<exists>s. doc_sim_sum_of self d = Inr s \<and> dss d = Some s"
proof (induction ds arbitrary: acc)
  case Nil
  then show ?case by simp
next
  case (Cons x xs)
  from Cons.prems obtain s where s: "doc_sim_sum_of self x = Inr s"
    and rest: "doc_sim_sum_loop self xs (acc(x \<mapsto> s)) = Inr dss"
    by (cases "doc_sim_sum_of self x") auto
  show ?case
  proof (cases "d \<in> set xs")
    case True
    then show ?thesis using Cons.IH [OF rest] by simp
  next
    case False
    with Cons.prems have "d = x" by simp
    moreover have "dss d = (acc(x \<mapsto> s)) d"
      using doc_sim_sum_loop_other [OF rest False] .
    ultimately show ?thesis using s by simp
  qed
qed

lemma compute_doc_sim_sum_maps:
  assumes "compute_doc_sim_sum self = Inr dss" "doc_col self = Some dc"
    "d \<in> set (unique_ids dc)"
  shows "\<exists>s. doc_sim_sum_of self d = Inr s \<and> dss d = Some s"
  using assms doc_sim_sum_loop_maps [of self "unique_ids dc" Map.empty dss d]
  by (simp add: compute_doc_sim_sum_def)


lemma ex_doc_sim_sum_of:
  "doc_sim_sum_of (ex_glm l a b) 1 = Inr (Fin 1)"
  "doc_sim_sum_of (ex_glm l a b) 2 = Inr (Fin 1)"
  "doc_sim_sum_of (ex_glm l a b) 3 = Inr (Fin 0)"
  by (simp_all add: doc_sim_sum_of_def index_document_def filter_doc_arr_def triu_indices_def
        cos_sim_entry_def np_sum_def upt_rec [of _ "numeral _"] upt_rec [of _ "Suc _"])

lemma ex_unique_ids: "unique_ids ex_doc_col = [1, 2, 3]"
  by (simp add: unique_ids_def ex_doc_col_def)

lemma ex_compute_doc_sim_sum:
  "compute_doc_sim_sum (ex_glm l a b) = Inr [1 \<mapsto> Fin 1, 2 \<mapsto> Fin 1, 3 \<mapsto> Fin 0]"
  by (simp add: compute_doc_sim_sum_def ex_unique_ids ex_doc_sim_sum_of)

section \<open>Lemmas on the document transform\<close>

lemma sum_list_count_real:
  fixes f :: "'a \<Rightarrow> real"
  assumes "finite A" "set xs \<subseteq> A"
  shows "sum_list (map f xs) = (\<Sum>x \<in> A. real (count_list xs x) * f x)"
  using assms(2)
proof (induction xs)
  case Nil
  then show ?case by simp
next
  case (Cons y ys)
  have "(\<Sum>x \<in> A. real (count_list (y # ys) x) * f x) =
        (\<Sum>x \<in> A. real (count_list ys x) * f x + (if y = x then f x else 0))"
    by (rule sum.cong) (auto simp: algebra_simps)
  also have "\<dots> = (\<Sum>x \<in> A. real (count_list ys x) * f x) + (\<Sum>x \<in> A. if y = x then f x else 0)"
    by (simp add: sum.distrib)
  also have "(\<Sum>x \<in> A. if y = x then f x else 0) = f y"
    using assms(1) Cons.prems by (simp add: sum.delta')
  finally show ?case using Cons by simp
qed

lemma sum_list_positions_distinct:
  fixes g :: "'a \<Rightarrow> real"
  shows "(\<Sum>t \<leftarrow> fd. g t * real (count_list fd t)) =
         (\<Sum>t \<leftarrow> remdups fd. g t * (real (count_list fd t))\<^sup>2)"
proof -
  have "(\<Sum>t \<leftarrow> fd. g t * real (count_list fd t)) =
        (\<Sum>t \<in> set fd. real (count_list fd t) * (g t * real (count_list fd t)))"
    by (rule sum_list_count_real) simp_all
  also have "\<dots> = (\<Sum>t \<in> set fd. g t * (real (count_list fd t))\<^sup>2)"
    by (rule sum.cong) (simp_all add: power2_eq_square)
  also have "\<dots> = (\<Sum>t \<leftarrow> remdups fd. g t * (real (count_list fd t))\<^sup>2)"
    using sum_list_distinct_conv_sum_set [of "remdups fd" "\<lambda>t. g t * (real (count_list fd t))\<^sup>2"]
    by simp
  finally show ?thesis .
qed

lemma doc_transform_sum:
  assumes "\<forall>t \<in> set ts. vnorm (E t) \<noteq> 0" and "vnorm qv \<noteq> 0" and "s * dl \<noteq> 0"
  shows "np_sum (map2 (\<lambda>sim tf. np_div (fl_mul sim (Fin tf)) (fl_mul (Fin s) (Fin dl)))
            (map (\<lambda>row. np_div (np_div (Fin (dot row qv)) (Fin (vnorm row))) (Fin (vnorm qv)))
                 (map E ts))
            (map c ts)) =
         Fin ((\<Sum>t \<leftarrow> ts. cosine (E t) qv * c t) / (s * dl))"
  using assms(1)
proof (induction ts)
  case Nil
  then show ?case by (simp add: np_sum_def)
next
  case (Cons t ts)
  then have ih: "np_sum (map2 (\<lambda>sim tf. np_div (fl_mul sim (Fin tf)) (fl_mul (Fin s) (Fin dl)))
            (map (\<lambda>row. np_div (np_div (Fin (dot row qv)) (Fin (vnorm row))) (Fin (vnorm qv)))
                 (map E ts))
            (map c ts)) = Fin ((\<Sum>t \<leftarrow> ts. cosine (E t) qv * c t) / (s * dl))"
    by simp
  have nz: "vnorm (E t) \<noteq> 0" using Cons.prems by simp
  have step: "np_sum (x # xs) = fl_add x (np_sum xs)" for x xs
    by (simp add: np_sum_def)
  show ?case
    using nz assms(2,3) ih
    by (simp add: step cosine_def add_divide_distrib)
qed

lemma ex_cosine [simp]:
  "cosine e1 e1 = 1" "cosine e2 e1 = 0" "cosine e1 e2 = 0" "cosine e2 e2 = 1"
  by (simp_all add: cosine_def)

lemma ex_doc_transform_D1:
  "compute_doc_transform (ex_glm l a b) 5 1 [5, 0, 5, 5] = Inr (Fin 3)"
  by (simp add: compute_doc_transform_def filter_doc_arr_def np_sum_def getitem_def ex_doc_len_def)

section \<open>What the caches depend on\<close>

lemma embedding_cong:
  "id2token s' = id2token s \<Longrightarrow> word2vec s' = word2vec s \<Longrightarrow> embedding s' t = embedding s t"
  by (simp add: embedding_def)

lemma doc_model_rows_cong:
  "id2token s' = id2token s \<Longrightarrow> word2vec s' = word2vec s \<Longrightarrow>
   doc_model_rows s' ts = doc_model_rows s ts"
  by (induction ts) (simp_all add: embedding_cong [of s' s])

lemma doc_sim_sum_of_cong:
  "index s' = index s \<Longrightarrow> id2token s' = id2token s \<Longrightarrow> word2vec s' = word2vec s \<Longrightarrow>
   doc_sim_sum_of s' d = doc_sim_sum_of s d"
  by (simp add: doc_sim_sum_of_def index_document_def doc_model_rows_cong [of s' s])

lemma doc_sim_sum_loop_cong:
  "index s' = index s \<Longrightarrow> id2token s' = id2token s \<Longrightarrow> word2vec s' = word2vec s \<Longrightarrow>
   doc_sim_sum_loop s' ds acc = doc_sim_sum_loop s ds acc"
  by (induction ds arbitrary: acc) (simp_all add: doc_sim_sum_of_cong [of s' s])

lemma compute_doc_sim_sum_cong:
  "index s' = index s \<Longrightarrow> id2token s' = id2token s \<Longrightarrow> word2vec s' = word2vec s \<Longrightarrow>
   doc_col s' = doc_col s \<Longrightarrow> compute_doc_sim_sum s' = compute_doc_sim_sum s"
  by (simp add: compute_doc_sim_sum_def doc_sim_sum_loop_cong [of s' s] split: option.split)

lemma neighbour_sims_cong:
  "word2vec s' = word2vec s \<Longrightarrow> neighbour_sims s' tok ns = neighbour_sims s tok ns"
  by (induction ns) simp_all

lemma col_nt_terms_cong:
  "id2token s' = id2token s \<Longrightarrow> word2vec s' = word2vec s \<Longrightarrow>
   col_nt_terms s' n ts cache = col_nt_terms s n ts cache"
proof (induction ts arbitrary: cache)
  case Nil
  then show ?case by simp
next
  case (Cons t ts)
  then show ?case
    by (cases cache) (simp add: neighbour_sims_cong [of s' s])
qed

lemma col_nt_queries_cong:
  "id2token s' = id2token s \<Longrightarrow> word2vec s' = word2vec s \<Longrightarrow> queries s' = queries s \<Longrightarrow>
   col_nt_queries s' n dc cache = col_nt_queries s n dc cache"
proof (induction dc arbitrary: cache)
  case Nil
  then show ?case by simp
next
  case (Cons p dc)
  have "col_nt_queries s' n dc = col_nt_queries s n dc"
    using Cons by (intro ext) simp
  with Cons.prems show ?case
    by (cases p) (simp add: col_nt_terms_cong [of s' s])
qed

lemma compute_col_nt_cong:
  "id2token s' = id2token s \<Longrightarrow> word2vec s' = word2vec s \<Longrightarrow> queries s' = queries s \<Longrightarrow>
   doc_col s' = doc_col s \<Longrightarrow> compute_col_nt s' n = compute_col_nt s n"
  by (simp add: compute_col_nt_def col_nt_queries_cong [of s' s] split: option.split)

lemma compute_doc_sim_sum_upd [simp]:
  "compute_doc_sim_sum (s\<lparr>doc_sim_sum := x\<rparr>) = compute_doc_sim_sum s"
  "compute_doc_sim_sum (s\<lparr>col_Nt := y\<rparr>) = compute_doc_sim_sum s"
  "compute_doc_sim_sum (s\<lparr>sum_nT := z\<rparr>) = compute_doc_sim_sum s"
  "compute_doc_sim_sum (s\<lparr>lamb := l\<rparr>) = compute_doc_sim_sum s"
  "compute_doc_sim_sum (s\<lparr>alph := a\<rparr>) = compute_doc_sim_sum s"
  "compute_doc_sim_sum (s\<lparr>beta := b\<rparr>) = compute_doc_sim_sum s"
  by (rule compute_doc_sim_sum_cong; simp)+

lemma compute_col_nt_upd [simp]:
  "compute_col_nt (s\<lparr>doc_sim_sum := x\<rparr>) n = compute_col_nt s n"
  "compute_col_nt (s\<lparr>col_Nt := y\<rparr>) n = compute_col_nt s n"
  "compute_col_nt (s\<lparr>sum_nT := z\<rparr>) n = compute_col_nt s n"
  "compute_col_nt (s\<lparr>lamb := l\<rparr>) n = compute_col_nt s n"
  "compute_col_nt (s\<lparr>alph := a\<rparr>) n = compute_col_nt s n"
  "compute_col_nt (s\<lparr>beta := b\<rparr>) n = compute_col_nt s n"
  by (rule compute_col_nt_cong; simp)+

section \<open>The constructor on the small collection\<close>

lemma ex_cos_sim [simp]:
  "cos_sim e1 e3 = Inr (Fin (3 / 5))" "cos_sim e1 e2 = Inr (Fin 0)"
  "cos_sim e2 e3 = Inr (Fin (4 / 5))" "cos_sim e2 e1 = Inr (Fin 0)"
  by (simp_all add: cos_sim_def)

lemma ex_most_similar [simp]:
  "most_similar ex_w2v ''a'' 3 = Inr [(''c'', 3 / 5), (''b'', 0)]"
  "most_similar ex_w2v ''b'' 3 = Inr [(''c'', 4 / 5), (''a'', 0)]"
  by (simp_all add: ex_w2v_def)

lemma ex_compute_col_nt:
  "compute_col_nt (ex_glm l a b) 3 =
     Inr ([''a'' \<mapsto> [''c'', ''b''], ''b'' \<mapsto> [''c'', ''a'']],
          [''a'' \<mapsto> Fin (3 / 5), ''b'' \<mapsto> Fin (4 / 5)])"
  by (simp add: compute_col_nt_def ex_doc_col_def ex_queries_def getitem_def)

lemma ex_self0:
  "\<lparr> index = ex_index, inverted_index = ex_inverted_index, queries = ex_queries,
     col_freq = ex_col_freq, col_size = sum_list (map fst ex_col_freq), doc_len = ex_doc_len,
     lamb = l, alph = a, beta = b, doc_col = Some ex_doc_col,
     token2id = dict_token2id ex_index, id2token = dict_id2token ex_index,
     word2vec = ex_w2v, doc_sim_sum = x, col_Nt = y, sum_nT = z \<rparr> =
   ex_glm l a b \<lparr> doc_sim_sum := x, col_Nt := y, sum_nT := z \<rparr>"
  by (simp add: ex_glm_def ex_col_freq_def ex_index_def)

lemma ex_glm_upd:
  "ex_glm l a b \<lparr> doc_sim_sum := [1 \<mapsto> Fin 1, 2 \<mapsto> Fin 1, 3 \<mapsto> Fin 0],
      col_Nt := [''a'' \<mapsto> [''c'', ''b''], ''b'' \<mapsto> [''c'', ''a'']],
      sum_nT := [''a'' \<mapsto> Fin (3 / 5), ''b'' \<mapsto> Fin (4 / 5)] \<rparr> = ex_glm l a b"
  by (simp add: ex_glm_def)

lemma ex_GLM_init:
  "GLM_init ex_files ex_w2v ex_index ex_inverted_index ex_queries ex_col_freq ex_doc_len
      l a b (Some ex_doc_col) = Inr (ex_glm l a b, ex_files_cached)"
  unfolding GLM_init_def ex_self0
  by (simp add: ex_compute_doc_sim_sum ex_compute_col_nt ex_files_def ex_files_cached_def
        ex_glm_upd)

section \<open>Lemmas on the score\<close>

lemma mixture_boundary:
  assumes "lamb self = 1" "alph self = 0" "beta self = 0"
    and "compute_term_likelihood self t d = Inr p"
    and "compute_doc_transform self t d doc = Inr (Fin x)"
    and "compute_col_transform self t = Inr (Fin y)"
    and "col_size self \<noteq> 0"
  shows "mixture self t d doc = Inr (Fin p)"
  using assms by (simp add: mixture_def compute_bg_likelihood_def)

lemma score_loop_boundary:
  assumes "lamb self = 1" "alph self = 0" "beta self = 0" "col_size self \<noteq> 0"
    and "\<forall>t \<in> set q. compute_term_likelihood self t d = Inr (P t) \<and> 0 < P t \<and>
           (\<exists>x. compute_doc_transform self t d doc = Inr (Fin x)) \<and>
           (\<exists>y. compute_col_transform self t = Inr (Fin y))"
  shows "score_loop self d doc q (Fin acc) = Inr (Fin (acc + (\<Sum>t \<leftarrow> q. ln (P t))))"
  using assms(5)
proof (induction q arbitrary: acc)
  case Nil
  then show ?case by simp
next
  case (Cons t ts)
  from Cons.prems obtain x y where c:
    "compute_term_likelihood self t d = Inr (P t)" "0 < P t"
    "compute_doc_transform self t d doc = Inr (Fin x)"
    "compute_col_transform self t = Inr (Fin y)"
    by auto
  have m: "mixture self t d doc = Inr (Fin (P t))"
    using mixture_boundary [OF assms(1-3) c(1,3,4) assms(4)] .
  have "score_loop self d doc ts (Fin (acc + ln (P t))) =
        Inr (Fin (acc + ln (P t) + (\<Sum>t \<leftarrow> ts. ln (P t))))"
    using Cons.IH [of "acc + ln (P t)"] Cons.prems by simp
  then show ?case
    using m c(2) by (simp add: add.assoc)
qed

lemma ex_term_likelihood:
  "compute_term_likelihood (ex_glm l a b) 5 1 = Inr 1"
  "compute_term_likelihood (ex_glm l a b) 6 1 = Inr 0"
  "compute_term_likelihood (ex_glm l a b) 5 2 = Inr (1 / 2)"
  "compute_term_likelihood (ex_glm l a b) 6 2 = Inr (1 / 2)"
  "compute_term_likelihood (ex_glm l a b) 6 3 = Inr 1"
  by (simp_all add: compute_term_likelihood_def getitem_def ex_doc_len_def ex_inverted_index_def)

lemma ex_doc_transform:
  "compute_doc_transform (ex_glm l a b) 6 1 [5, 0, 5, 5] = Inr (Fin 0)"
  "compute_doc_transform (ex_glm l a b) 5 2 [5, 6, 5, 6] = Inr (Fin 1)"
  "compute_doc_transform (ex_glm l a b) 6 2 [5, 6, 5, 6] = Inr (Fin 1)"
  "compute_doc_transform (ex_glm l a b) 6 3 [0, 6] = Inr PInf"
  by (simp_all add: compute_doc_transform_def filter_doc_arr_def np_sum_def getitem_def
        ex_doc_len_def)

lemma ex_col_transform:
  "compute_col_transform (ex_glm l a b) 5 = Inr (Fin 0)"
  "compute_col_transform (ex_glm l a b) 6 = Inr (Fin 0)"
  by (simp_all add: compute_col_transform_def getitem_def py_div_def getitem_default0_def
        ex_col_freq_def)

lemma ex_bg_likelihood:
  "compute_bg_likelihood (ex_glm l a b) 5 = Inr (5 / 11)"
  "compute_bg_likelihood (ex_glm l a b) 6 = Inr (3 / 11)"
  by (simp_all add: compute_bg_likelihood_def getitem_default0_def ex_col_freq_def)

lemmas ex_components =
  ex_term_likelihood ex_doc_transform_D1 ex_doc_transform ex_col_transform ex_bg_likelihood

lemma math_log_error: "math_log c = Inl e \<Longrightarrow> e = ValueError ''math domain error''"
  by (cases c) (auto split: if_splits)

lemma score_loop_domain_error:
  assumes "\<forall>t \<in> set q. \<exists>c. mixture self t d doc = Inr c"
    and "t0 \<in> set q" and "mixture self t0 d doc = Inr c0"
    and "c0 = NInf \<or> (\<exists>p. c0 = Fin p \<and> p \<le> 0)"
  shows "score_loop self d doc q acc = Inl (ValueError ''math domain error'')"
  using assms(1,2)
proof (induction q arbitrary: acc)
  case Nil
  then show ?case by simp
next
  case (Cons t ts)
  from Cons.prems obtain c where c: "mixture self t d doc = Inr c" by auto
  show ?case
  proof (cases "math_log c")
    case (Inl e)
    then show ?thesis using c math_log_error [OF Inl] by simp
  next
    case (Inr l)
    have "t \<noteq> t0"
    proof
      assume "t = t0"
      then have "c = c0" using c assms(3) by simp
      then show False using Inr assms(4) by auto
    qed
    then have "t0 \<in> set ts" using Cons.prems by simp
    then have "score_loop self d doc ts (fl_add acc l) = Inl (ValueError ''math domain error'')"
      using Cons.IH Cons.prems by simp
    then show ?thesis using c Inr by simp
  qed
qed

section \<open>Lemmas on the retrieval driver\<close>

lemma dd_get_append:
  "dd_get (dd_append data k x) k' = (if k' = k then dd_get data k @ [x] else dd_get data k')"
  by (induction data) (auto simp: dd_get_def)

lemma visit_flag:
  "doc_is_in_inverted_index self q d \<Longrightarrow>
   visit self qid q d ext (sc, data) =
     and_then (score self d q) (\<lambda>s.
       Inr (sc((qid, ext) \<mapsto> s), if s \<noteq> Fin 0 then dd_append data qid (s, ext) else data))"
  by (cases "score self d q") (simp_all add: visit_def)

lemma visit_noflag:
  "\<not> doc_is_in_inverted_index self q d \<Longrightarrow>
   visit self qid q d ext (sc, data) =
     Inr (sc, case sc (qid, ext) of
                None \<Rightarrow> data
              | Some s \<Rightarrow> if s \<noteq> Fin 0 then dd_append data qid (s, ext) else data)"
  by (simp add: visit_def split: option.split)

lemma visit_inv:
  assumes "visit self qid' q' d' ext' st = Inr st'"
    and "recorded_ok self qid q d ext st"
    and "qid' = qid \<and> ext' = ext \<longrightarrow> q' = q \<and> d' = d"
  shows "recorded_ok self qid q d ext st'"
proof (cases st)
  case (Pair sc data)
  show ?thesis
  proof (cases "doc_is_in_inverted_index self q' d'")
    case True
    then obtain s where s: "score self d' q' = Inr s"
      and st': "st' = (sc((qid', ext') \<mapsto> s),
                  if s \<noteq> Fin 0 then dd_append data qid' (s, ext') else data)"
      using assms(1) Pair by (cases "score self d' q'") (auto simp: visit_flag)
    show ?thesis
      using assms(2,3) True s
      unfolding st' Pair recorded_ok_def
      by (auto simp: dd_get_append split: if_splits)
  next
    case False
    then have st': "st' = (sc, case sc (qid', ext') of
                None \<Rightarrow> data
              | Some s \<Rightarrow> if s \<noteq> Fin 0 then dd_append data qid' (s, ext') else data)"
      using assms(1) Pair by (simp add: visit_noflag)
    show ?thesis
      using assms(2,3)
      unfolding st' Pair recorded_ok_def
      by (auto simp: dd_get_append split: if_splits option.splits)
  qed
qed

lemma visit_mono:
  assumes "visit self qid' q' d' ext' st = Inr st'"
  shows "set (dd_get (snd st) k) \<subseteq> set (dd_get (snd st') k)"
proof (cases st)
  case (Pair sc data)
  show ?thesis
  proof (cases "doc_is_in_inverted_index self q' d'")
    case True
    then show ?thesis
      using assms Pair
      by (cases "score self d' q'") (auto simp: visit_flag dd_get_append split: if_splits)
  next
    case False
    then show ?thesis
      using assms Pair
      by (auto simp: visit_noflag dd_get_append split: if_splits option.splits)
  qed
qed

lemma visit_scored:
  assumes "visit self qid q d ext st = Inr st'"
    and "doc_is_in_inverted_index self q d"
  shows "\<exists>s. score self d q = Inr s \<and> (s \<noteq> Fin 0 \<longrightarrow> (s, ext) \<in> set (dd_get (snd st') qid))"
proof (cases st)
  case (Pair sc data)
  then show ?thesis
    using assms
    by (cases "score self d q") (auto simp: visit_flag dd_get_append split: if_splits)
qed

subsection \<open>The loops with a candidate collection\<close>

lemma rerank_docs_step:
  assumes "rerank_docs self qid q (d0 # ds) st = Inr st'"
  obtains ext0 doc0 st1 where "document (index self) d0 = Some (ext0, doc0)"
    and "visit self qid q d0 ext0 st = Inr st1"
    and "rerank_docs self qid q ds st1 = Inr st'"
proof -
  from assms obtain ext0 doc0 where a: "document (index self) d0 = Some (ext0, doc0)"
    by (cases "document (index self) d0") (auto simp: index_document_def)
  with assms obtain st1 where "visit self qid q d0 ext0 st = Inr st1"
    and "rerank_docs self qid q ds st1 = Inr st'"
    by (cases "visit self qid q d0 ext0 st") (auto simp: index_document_def)
  with a that show ?thesis by blast
qed

lemma rerank_docs_inv:
  assumes "rerank_docs self qid' q' ds st = Inr st'"
    and "recorded_ok self qid q d ext st"
    and "\<forall>d' doc'. document (index self) d' = Some (ext, doc') \<longrightarrow> d' = d"
    and "qid' = qid \<longrightarrow> q' = q"
  shows "recorded_ok self qid q d ext st'"
  using assms(1,2)
proof (induction ds arbitrary: st)
  case Nil
  then show ?case by simp
next
  case (Cons d0 ds)
  from Cons.prems(1) obtain ext0 doc0 st1 where
    a: "document (index self) d0 = Some (ext0, doc0)"
    and b: "visit self qid' q' d0 ext0 st = Inr st1"
    and c: "rerank_docs self qid' q' ds st1 = Inr st'"
    by (rule rerank_docs_step)
  have "qid' = qid \<and> ext0 = ext \<longrightarrow> q' = q \<and> d0 = d"
    using a assms(3,4) by auto
  from visit_inv [OF b Cons.prems(2) this] c show ?case
    by (rule Cons.IH [rotated])
qed

lemma rerank_docs_mono:
  assumes "rerank_docs self qid' q' ds st = Inr st'"
  shows "set (dd_get (snd st) k) \<subseteq> set (dd_get (snd st') k)"
  using assms
proof (induction ds arbitrary: st)
  case Nil
  then show ?case by simp
next
  case (Cons d0 ds)
  from Cons.prems obtain ext0 doc0 st1 where
    b: "visit self qid' q' d0 ext0 st = Inr st1"
    and c: "rerank_docs self qid' q' ds st1 = Inr st'"
    by (rule rerank_docs_step)
  from visit_mono [OF b, of k] Cons.IH [OF c] show ?case by blast
qed

lemma rerank_docs_scored:
  assumes "rerank_docs self qid q ds st = Inr st'"
    and "d \<in> set ds" and "document (index self) d = Some (ext, doc)"
    and "doc_is_in_inverted_index self q d"
  shows "\<exists>s. score self d q = Inr s \<and> (s \<noteq> Fin 0 \<longrightarrow> (s, ext) \<in> set (dd_get (snd st') qid))"
  using assms(1,2)
proof (induction ds arbitrary: st)
  case Nil
  then show ?case by simp
next
  case (Cons d0 ds)
  from Cons.prems(1) obtain ext0 doc0 st1 where
    a: "document (index self) d0 = Some (ext0, doc0)"
    and b: "visit self qid q d0 ext0 st = Inr st1"
    and c: "rerank_docs self qid q ds st1 = Inr st'"
    by (rule rerank_docs_step)
  show ?case
  proof (cases "d0 = d")
    case True
    then have "ext0 = ext" using a assms(3) by simp
    with b True have "visit self qid q d ext st = Inr st1" by simp
    from visit_scored [OF this assms(4)] rerank_docs_mono [OF c, of qid]
    show ?thesis by blast
  next
    case False
    then have "d \<in> set ds" using Cons.prems(2) by simp
    from Cons.IH [OF c this] show ?thesis .
  qed
qed

lemma rerank_queries_step:
  assumes "rerank_queries self ((k, ds) # rest) st = Inr st'"
  obtains q0 st1 where "map_of (queries self) k = Some q0"
    and "rerank_docs self k q0 ds st = Inr st1"
    and "rerank_queries self rest st1 = Inr st'"
proof -
  from assms obtain q0 where a: "map_of (queries self) k = Some q0"
    by (cases "map_of (queries self) k") (auto simp: getitem_def)
  with assms obtain st1 where "rerank_docs self k q0 ds st = Inr st1"
    and "rerank_queries self rest st1 = Inr st'"
    by (cases "rerank_docs self k q0 ds st") (auto simp: getitem_def)
  with a that show ?thesis by blast
qed

lemma rerank_queries_inv:
  assumes "rerank_queries self dc st = Inr st'"
    and "recorded_ok self qid q d ext st"
    and "\<forall>d' doc'. document (index self) d' = Some (ext, doc') \<longrightarrow> d' = d"
    and "map_of (queries self) qid = Some q"
  shows "recorded_ok self qid q d ext st'"
  using assms(1,2)
proof (induction dc arbitrary: st)
  case Nil
  then show ?case by simp
next
  case (Cons p rest)
  obtain k ds where p: "p = (k, ds)" by (cases p)
  from Cons.prems(1) [unfolded p] obtain q0 st1 where
    a: "map_of (queries self) k = Some q0"
    and b: "rerank_docs self k q0 ds st = Inr st1"
    and c: "rerank_queries self rest st1 = Inr st'"
    by (rule rerank_queries_step)
  have "k = qid \<longrightarrow> q0 = q" using a assms(4) by auto
  from rerank_docs_inv [OF b Cons.prems(2) assms(3) this] c show ?case
    by (rule Cons.IH [rotated])
qed

lemma rerank_queries_mono:
  assumes "rerank_queries self dc st = Inr st'"
  shows "set (dd_get (snd st) k) \<subseteq> set (dd_get (snd st') k)"
  using assms
proof (induction dc arbitrary: st)
  case Nil
  then show ?case by simp
next
  case (Cons p rest)
  obtain k0 ds where p: "p = (k0, ds)" by (cases p)
  from Cons.prems [unfolded p] obtain q0 st1 where
    b: "rerank_docs self k0 q0 ds st = Inr st1"
    and c: "rerank_queries self rest st1 = Inr st'"
    by (rule rerank_queries_step)
  from rerank_docs_mono [OF b, of k] Cons.IH [OF c] show ?case by blast
qed

lemma rerank_queries_scored:
  assumes "rerank_queries self dc st = Inr st'"
    and "(qid, ds) \<in> set dc" and "d \<in> set ds"
    and "map_of (queries self) qid = Some q"
    and "document (index self) d = Some (ext, doc)"
    and "doc_is_in_inverted_index self q d"
  shows "\<exists>s. score self d q = Inr s \<and> (s \<noteq> Fin 0 \<longrightarrow> (s, ext) \<in> set (dd_get (snd st') qid))"
  using assms(1,2)
proof (induction dc arbitrary: st)
  case Nil
  then show ?case by simp
next
  case (Cons p rest)
  obtain k0 ds0 where p: "p = (k0, ds0)" by (cases p)
  from Cons.prems(1) [unfolded p] obtain q0 st1 where
    a: "map_of (queries self) k0 = Some q0"
    and b: "rerank_docs self k0 q0 ds0 st = Inr st1"
    and c: "rerank_queries self rest st1 = Inr st'"
    by (rule rerank_queries_step)
  show ?case
  proof (cases "(qid, ds) = p")
    case True
    then have "k0 = qid" "ds0 = ds" "q0 = q" using p a assms(4) by auto
    with b have "rerank_docs self qid q ds st = Inr st1" by simp
    from rerank_docs_scored [OF this assms(3,5,6)] rerank_queries_mono [OF c, of qid]
    show ?thesis by blast
  next
    case False
    then have "(qid, ds) \<in> set rest" using Cons.prems(2) by simp
    from Cons.IH [OF c this] show ?thesis .
  qed
qed

subsection \<open>The loops over the whole collection\<close>

lemma full_queries_step:
  assumes "full_queries self d0 ext0 ((k, q0) # rest) st = Inr st'"
  obtains st1 where "visit self k q0 d0 ext0 st = Inr st1"
    and "full_queries self d0 ext0 rest st1 = Inr st'"
  using assms by (cases "visit self k q0 d0 ext0 st") auto

lemma full_queries_inv:
  assumes "full_queries self d0 ext0 qs st = Inr st'"
    and "recorded_ok self qid q d ext st"
    and "ext0 = ext \<longrightarrow> d0 = d"
    and "\<forall>q'. (qid, q') \<in> set qs \<longrightarrow> q' = q"
  shows "recorded_ok self qid q d ext st'"
  using assms(1,2,4)
proof (induction qs arbitrary: st)
  case Nil
  then show ?case by simp
next
  case (Cons p rest)
  obtain k q0 where p: "p = (k, q0)" by (cases p)
  from Cons.prems(1) [unfolded p] obtain st1 where
    b: "visit self k q0 d0 ext0 st = Inr st1"
    and c: "full_queries self d0 ext0 rest st1 = Inr st'"
    by (rule full_queries_step)
  have "k = qid \<and> ext0 = ext \<longrightarrow> q0 = q \<and> d0 = d"
    using assms(3) Cons.prems(3) p by auto
  from visit_inv [OF b Cons.prems(2) this]
  have "recorded_ok self qid q d ext st1" .
  moreover have "\<forall>q'. (qid, q') \<in> set rest \<longrightarrow> q' = q"
    using Cons.prems(3) by auto
  ultimately show ?case using Cons.IH [OF c] by blast
qed

lemma full_queries_mono:
  assumes "full_queries self d0 ext0 qs st = Inr st'"
  shows "set (dd_get (snd st) k) \<subseteq> set (dd_get (snd st') k)"
  using assms
proof (induction qs arbitrary: st)
  case Nil
  then show ?case by simp
next
  case (Cons p rest)
  obtain k0 q0 where p: "p = (k0, q0)" by (cases p)
  from Cons.prems [unfolded p] obtain st1 where
    b: "visit self k0 q0 d0 ext0 st = Inr st1"
    and c: "full_queries self d0 ext0 rest st1 = Inr st'"
    by (rule full_queries_step)
  from visit_mono [OF b, of k] Cons.IH [OF c] show ?case by blast
qed

lemma full_queries_scored:
  assumes "full_queries self d ext qs st = Inr st'"
    and "(qid, q) \<in> set qs"
    and "doc_is_in_inverted_index self q d"
  shows "\<exists>s. score self d q = Inr s \<and> (s \<noteq> Fin 0 \<longrightarrow> (s, ext) \<in> set (dd_get (snd st') qid))"
  using assms(1,2)
proof (induction qs arbitrary: st)
  case Nil
  then show ?case by simp
next
  case (Cons p rest)
  obtain k0 q0 where p: "p = (k0, q0)" by (cases p)
  from Cons.prems(1) [unfolded p] obtain st1 where
    b: "visit self k0 q0 d ext st = Inr st1"
    and c: "full_queries self d ext rest st1 = Inr st'"
    by (rule full_queries_step)
  show ?case
  proof (cases "(qid, q) = p")
    case True
    with b p have "visit self qid q d ext st = Inr st1" by simp
    from visit_scored [OF this assms(3)] full_queries_mono [OF c, of qid]
    show ?thesis by blast
  next
    case False
    then have "(qid, q) \<in> set rest" using Cons.prems(2) by simp
    from Cons.IH [OF c this] show ?thesis .
  qed
qed

lemma full_docs_step:
  assumes "full_docs self (d0 # ds) st = Inr st'"
  obtains ext0 doc0 st1 where "document (index self) d0 = Some (ext0, doc0)"
    and "full_queries self d0 ext0 (queries self) st = Inr st1"
    and "full_docs self ds st1 = Inr st'"
proof -
  from assms obtain ext0 doc0 where a: "document (index self) d0 = Some (ext0, doc0)"
    by (cases "document (index self) d0") (auto simp: index_document_def)
  with assms obtain st1 where "full_queries self d0 ext0 (queries self) st = Inr st1"
    and "full_docs self ds st1 = Inr st'"
    by (cases "full_queries self d0 ext0 (queries self) st") (auto simp: index_document_def)
  with a that show ?thesis by blast
qed

lemma full_docs_inv:
  assumes "full_docs self ds st = Inr st'"
    and "recorded_ok self qid q d ext st"
    and "\<forall>d' doc'. document (index self) d' = Some (ext, doc') \<longrightarrow> d' = d"
    and "\<forall>q'. (qid, q') \<in> set (queries self) \<longrightarrow> q' = q"
  shows "recorded_ok self qid q d ext st'"
  using assms(1,2)
proof (induction ds arbitrary: st)
  case Nil
  then show ?case by simp
next
  case (Cons d0 ds)
  from Cons.prems(1) obtain ext0 doc0 st1 where
    a: "document (index self) d0 = Some (ext0, doc0)"
    and b: "full_queries self d0 ext0 (queries self) st = Inr st1"
    and c: "full_docs self ds st1 = Inr st'"
    by (rule full_docs_step)
  have "ext0 = ext \<longrightarrow> d0 = d" using a assms(3) by auto
  from full_queries_inv [OF b Cons.prems(2) this assms(4)] c show ?case
    by (rule Cons.IH [rotated])
qed

lemma full_docs_mono:
  assumes "full_docs self ds st = Inr st'"
  shows "set (dd_get (snd st) k) \<subseteq> set (dd_get (snd st') k)"
  using assms
proof (induction ds arbitrary: st)
  case Nil
  then show ?case by simp
next
  case (Cons d0 ds)
  from Cons.prems obtain ext0 doc0 st1 where
    b: "full_queries self d0 ext0 (queries self) st = Inr st1"
    and c: "full_docs self ds st1 = Inr st'"
    by (rule full_docs_step)
  from full_queries_mono [OF b, of k] Cons.IH [OF c] show ?case by blast
qed

lemma full_docs_scored:
  assumes "full_docs self ds st = Inr st'"
    and "d \<in> set ds" and "(qid, q) \<in> set (queries self)"
    and "document (index self) d = Some (ext, doc)"
    and "doc_is_in_inverted_index self q d"
  shows "\<exists>s. score self d q = Inr s \<and> (s \<noteq> Fin 0 \<longrightarrow> (s, ext) \<in> set (dd_get (snd st') qid))"
  using assms(1,2)
proof (induction ds arbitrary: st)
  case Nil
  then show ?case by simp
next
  case (Cons d0 ds)
  from Cons.prems(1) obtain ext0 doc0 st1 where
    a: "document (index self) d0 = Some (ext0, doc0)"
    and b: "full_queries self d0 ext0 (queries self) st = Inr st1"
    and c: "full_docs self ds st1 = Inr st'"
    by (rule full_docs_step)
  show ?case
  proof (cases "d0 = d")
    case True
    then have "ext0 = ext" using a assms(4) by simp
    with b True have "full_queries self d ext (queries self) st = Inr st1" by simp
    from full_queries_scored [OF this assms(3,5)] full_docs_mono [OF c, of qid]
    show ?thesis by blast
  next
    case False
    then have "d \<in> set ds" using Cons.prems(2) by simp
    from Cons.IH [OF c this] show ?thesis .
  qed
qed

subsection \<open>The run\<close>

lemma recorded_ok_init: "recorded_ok self qid q d ext (Map.empty, [])"
  by (simp add: recorded_ok_def dd_get_def)

lemma run_success:
  assumes "run wr self fs name dc = (Inr (Some data), fs')"
  obtains scores where
    "(case dc of
        None \<Rightarrow> full_docs self [document_base (index self) ..
                                 maximum_document (index self) - 1] (Map.empty, [])
      | Some c \<Rightarrow> rerank_queries self c (Map.empty, [])) = Inr (scores, data)"
    and "run_files fs (run_out_path name) = None"
    and "fs' = fs\<lparr>run_files := (run_files fs)(run_out_path name \<mapsto> wr name data 1000)\<rparr>"
  using assms
  by (auto simp: run_def split: if_splits sum.splits prod.splits)

lemma run_loop_recorded_ok:
  assumes "(case dc of
        None \<Rightarrow> full_docs self [document_base (index self) ..
                                 maximum_document (index self) - 1] (Map.empty, [])
      | Some c \<Rightarrow> rerank_queries self c (Map.empty, [])) = Inr (scores, data)"
    and dist: "distinct (map fst (queries self))"
    and q: "map_of (queries self) qid = Some q"
    and uniq: "\<forall>d' doc'. document (index self) d' = Some (ext, doc') \<longrightarrow> d' = d"
  shows "recorded_ok self qid q d ext (scores, data)"
proof -
  have qs: "\<forall>q'. (qid, q') \<in> set (queries self) \<longrightarrow> q' = q"
  proof (intro allI impI)
    fix q' assume "(qid, q') \<in> set (queries self)"
    with dist have "map_of (queries self) qid = Some q'" by (rule map_of_is_SomeI)
    with q show "q' = q" by simp
  qed
  show ?thesis
  proof (cases dc)
    case None
    with assms(1) show ?thesis
      using full_docs_inv [OF _ recorded_ok_init uniq qs] by simp
  next
    case (Some c)
    with assms(1) show ?thesis
      using rerank_queries_inv [OF _ recorded_ok_init uniq q] by simp
  qed
qed

lemma run_loop_scored:
  assumes loop: "(case dc of
        None \<Rightarrow> full_docs self [document_base (index self) ..
                                 maximum_document (index self) - 1] (Map.empty, [])
      | Some c \<Rightarrow> rerank_queries self c (Map.empty, [])) = Inr (scores, data)"
    and cons: "considered self dc qid d"
    and q: "map_of (queries self) qid = Some q"
    and doc: "document (index self) d = Some (ext, doc)"
    and flag: "doc_is_in_inverted_index self q d"
  shows "\<exists>s. score self d q = Inr s \<and> (s \<noteq> Fin 0 \<longrightarrow> (s, ext) \<in> set (dd_get data qid))"
proof (cases dc)
  case None
  have qin: "(qid, q) \<in> set (queries self)"
    using q by (rule map_of_SomeD)
  from None cons have "d \<in> set [document_base (index self) .. maximum_document (index self) - 1]"
    by (auto simp: considered_def)
  from full_docs_scored [OF _ this qin doc flag] loop None show ?thesis by auto
next
  case (Some c)
  with cons obtain ds where "(qid, ds) \<in> set c" "d \<in> set ds"
    by (auto simp: considered_def list_ex_iff)
  from rerank_queries_scored [OF _ this q doc flag] loop Some show ?thesis by auto
qed

lemma run_fails:
  assumes "run_files fs (run_out_path name) = None"
    and cons: "considered self dc qid d"
    and q: "map_of (queries self) qid = Some q"
    and doc: "document (index self) d = Some (ext, doc)"
    and flag: "doc_is_in_inverted_index self q d"
    and err: "score self d q = Inl e"
  shows "\<exists>e'. run wr self fs name dc = (Inl e', fs)"
proof -
  let ?loop = "case dc of
        None \<Rightarrow> full_docs self [document_base (index self) ..
                                 maximum_document (index self) - 1] (Map.empty, [])
      | Some c \<Rightarrow> rerank_queries self c (Map.empty, [])"
  show ?thesis
  proof (cases ?loop)
    case (Inl e')
    with assms(1) have "run wr self fs name dc = (Inl e', fs)"
      by (simp add: run_def)
    then show ?thesis by blast
  next
    case (Inr st)
    obtain scores data where "st = (scores, data)" by (cases st)
    with Inr have "?loop = Inr (scores, data)" by simp
    from run_loop_scored [OF this cons q doc flag] err show ?thesis by simp
  qed
qed

section \<open>Runs on the small collection\<close>

lemma ex_flags:
  "doc_is_in_inverted_index (ex_glm l a b) [6] 1 = False"
  "doc_is_in_inverted_index (ex_glm l a b) [6] 2 = True"
  "doc_is_in_inverted_index (ex_glm l a b) [5, 6] 1 = True"
  "doc_is_in_inverted_index (ex_glm l a b) [5, 6] 2 = True"
  by (simp_all add: doc_is_in_inverted_index_def ex_inverted_index_def)

lemma ex_queries_lookup [simp]:
  "map_of ex_queries 10 = Some [5, 6]" "map_of ex_queries 11 = Some [6]"
  by (simp_all add: ex_queries_def)

lemma ex_score_D2:
  "score (ex_glm 1 0 0) 2 [6] = Inr (Fin (ln (1 / 2)))"
  by (simp add: score_def index_document_def mixture_def ex_components)

lemma ex_score_D1_fails:
  "mixture (ex_glm 1 0 0) 6 1 [5, 0, 5, 5] = Inr (Fin 0)"
  "mixture (ex_glm 1 0 0) 5 1 [5, 0, 5, 5] = Inr (Fin 1)"
  "score (ex_glm 1 0 0) 1 [5, 6] = Inl (ValueError ''math domain error'')"
  by (simp_all add: score_def index_document_def mixture_def ex_components)

lemma ex_run_rerank:
  "run ex_write_run (ex_glm 1 0 0) ex_files_cached ''glm'' (Some ex_rerank) =
     (Inr (Some [(11, [(Fin (ln (1 / 2)), ''D2'')])]),
      ex_files_cached\<lparr>run_files := [run_out_path ''glm'' \<mapsto> ''glm; '']\<rparr>)"
  by (simp add: run_def ex_rerank_def ex_files_cached_def getitem_def index_document_def
        visit_def ex_flags ex_score_D2 ex_write_run_def Let_def)

lemma ex_run_aborts:
  "run ex_write_run (ex_glm 1 0 0) ex_files_cached ''glm'' (Some ex_doc_col) =
     (Inl (ValueError ''math domain error''), ex_files_cached)"
  by (simp add: run_def ex_doc_col_def ex_files_cached_def getitem_def index_document_def
        visit_def ex_flags ex_score_D1_fails Let_def)

lemma ex_score_D2_bad_weights:
  "score (ex_glm (- 1) (3 / 2) (3 / 2)) 2 [6] = Inr (Fin (ln (8 / 11)))"
  by (simp add: score_def index_document_def mixture_def ex_components)

section \<open>The constructor and the weights\<close>

lemma GLM_init_weights:
  "GLM_init fs w idx ii qs cf dl l a b dc =
     (case GLM_init fs w idx ii qs cf dl 0 0 0 dc of
        Inl e \<Rightarrow> Inl e
      | Inr (m, fs') \<Rightarrow> Inr (m\<lparr>lamb := l, alph := a, beta := b\<rparr>, fs'))"
proof -
  let ?s = "\<lambda>l a b x. \<lparr> index = idx, inverted_index = ii, queries = qs, col_freq = cf,
                    col_size = sum_list (map fst cf), doc_len = dl,
                    lamb = l, alph = a, beta = b, doc_col = dc,
                    token2id = dict_token2id idx, id2token = dict_id2token idx,
                    word2vec = w, doc_sim_sum = x,
                    col_Nt = Map.empty, sum_nT = Map.empty \<rparr>"
  have d: "compute_doc_sim_sum (?s l a b Map.empty) = compute_doc_sim_sum (?s 0 0 0 Map.empty)"
    by (rule compute_doc_sim_sum_cong) simp_all
  have n: "compute_col_nt (?s l a b x) 3 = compute_col_nt (?s 0 0 0 x) 3" for x
    by (rule compute_col_nt_cong) simp_all
  show ?thesis
  proof (cases "doc_sim_sums_pkl fs")
    case (Some dss)
    then show ?thesis
      unfolding GLM_init_def Let_def
      by (cases "col_Nt_pkl fs"; cases "compute_col_nt (?s 0 0 0 dss) 3")
         (auto simp: n)
  next
    case None
    show ?thesis
    proof (cases "compute_doc_sim_sum (?s 0 0 0 Map.empty)")
      case (Inl e)
      with None show ?thesis
        unfolding GLM_init_def Let_def by (simp add: d)
    next
      case (Inr dss)
      with None show ?thesis
        unfolding GLM_init_def Let_def
        by (cases "col_Nt_pkl fs"; cases "compute_col_nt (?s 0 0 0 dss) 3")
           (auto simp: d n)
    qed
  qed
qed

section \<open>When the driver returns\<close>

lemma visit_returns:
  assumes "doc_is_in_inverted_index self q d \<longrightarrow> (\<exists>s. score self d q = Inr s)"
  shows "\<exists>st'. visit self qid q d ext st = Inr st'"
proof (cases st)
  case (Pair sc data)
  show ?thesis
  proof (cases "doc_is_in_inverted_index self q d")
    case True
    with assms obtain s where "score self d q = Inr s" by blast
    with True Pair show ?thesis by (simp add: visit_flag)
  next
    case False
    with Pair show ?thesis by (simp add: visit_noflag)
  qed
qed

lemma rerank_docs_returns:
  assumes "\<forall>d \<in> set ds. document (index self) d \<noteq> None \<and>
             (doc_is_in_inverted_index self q d \<longrightarrow> (\<exists>s. score self d q = Inr s))"
  shows "\<exists>st'. rerank_docs self qid q ds st = Inr st'"
  using assms
proof (induction ds arbitrary: st)
  case Nil
  then show ?case by simp
next
  case (Cons d0 ds)
  from Cons.prems obtain ext0 doc0 where a: "document (index self) d0 = Some (ext0, doc0)"
    by (cases "document (index self) d0") auto
  from Cons.prems have "doc_is_in_inverted_index self q d0 \<longrightarrow> (\<exists>s. score self d0 q = Inr s)"
    by simp
  from visit_returns [OF this] obtain st1 where b: "visit self qid q d0 ext0 st = Inr st1"
    by blast
  from Cons.IH [of st1] Cons.prems obtain st' where "rerank_docs self qid q ds st1 = Inr st'"
    by auto
  with a b show ?case by (simp add: index_document_def)
qed

lemma rerank_queries_returns:
  assumes "\<forall>(k, ds) \<in> set c. \<exists>q. map_of (queries self) k = Some q \<and>
             (\<forall>d \<in> set ds. document (index self) d \<noteq> None \<and>
                (doc_is_in_inverted_index self q d \<longrightarrow> (\<exists>s. score self d q = Inr s)))"
  shows "\<exists>st'. rerank_queries self c st = Inr st'"
  using assms
proof (induction c arbitrary: st)
  case Nil
  then show ?case by simp
next
  case (Cons p rest)
  obtain k ds where p: "p = (k, ds)" by (cases p)
  from Cons.prems p obtain q where q: "map_of (queries self) k = Some q"
    and ds: "\<forall>d \<in> set ds. document (index self) d \<noteq> None \<and>
                (doc_is_in_inverted_index self q d \<longrightarrow> (\<exists>s. score self d q = Inr s))"
    by auto
  from rerank_docs_returns [OF ds] obtain st1 where b: "rerank_docs self k q ds st = Inr st1"
    by blast
  from Cons.IH [of st1] Cons.prems obtain st' where "rerank_queries self rest st1 = Inr st'"
    by auto
  with q b p show ?case by (simp add: getitem_def)
qed

lemma full_queries_returns:
  assumes "\<forall>(k, q) \<in> set qs. doc_is_in_inverted_index self q d \<longrightarrow> (\<exists>s. score self d q = Inr s)"
  shows "\<exists>st'. full_queries self d ext qs st = Inr st'"
  using assms
proof (induction qs arbitrary: st)
  case Nil
  then show ?case by simp
next
  case (Cons p rest)
  obtain k q where p: "p = (k, q)" by (cases p)
  from Cons.prems p have "doc_is_in_inverted_index self q d \<longrightarrow> (\<exists>s. score self d q = Inr s)"
    by simp
  from visit_returns [OF this] obtain st1 where b: "visit self k q d ext st = Inr st1"
    by blast
  from Cons.IH [of st1] Cons.prems obtain st' where "full_queries self d ext rest st1 = Inr st'"
    by auto
  with b p show ?case by simp
qed

lemma full_docs_returns:
  assumes "\<forall>d \<in> set ds. document (index self) d \<noteq> None \<and>
             (\<forall>(k, q) \<in> set (queries self).
                 doc_is_in_inverted_index self q d \<longrightarrow> (\<exists>s. score self d q = Inr s))"
  shows "\<exists>st'. full_docs self ds st = Inr st'"
  using assms
proof (induction ds arbitrary: st)
  case Nil
  then show ?case by simp
next
  case (Cons d0 ds)
  from Cons.prems obtain ext0 doc0 where a: "document (index self) d0 = Some (ext0, doc0)"
    by (cases "document (index self) d0") auto
  from Cons.prems have "\<forall>(k, q) \<in> set (queries self).
      doc_is_in_inverted_index self q d0 \<longrightarrow> (\<exists>s. score self d0 q = Inr s)"
    by simp
  from full_queries_returns [OF this] obtain st1 where
    b: "full_queries self d0 ext0 (queries self) st = Inr st1"
    by blast
  from Cons.IH [of st1] Cons.prems obtain st' where "full_docs self ds st1 = Inr st'"
    by auto
  with a b show ?case by (simp add: index_document_def)
qed

lemma run_loop_returns:
  assumes look: "lookups_succeed self dc"
    and dist: "distinct (map fst (queries self))"
    and sc: "\<forall>qid d q. considered self dc qid d \<and> map_of (queries self) qid = Some q \<and>
               doc_is_in_inverted_index self q d \<longrightarrow> (\<exists>s. score self d q = Inr s)"
  shows "\<exists>scores data. (case dc of
        None \<Rightarrow> full_docs self [document_base (index self) ..
                                 maximum_document (index self) - 1] (Map.empty, [])
      | Some c \<Rightarrow> rerank_queries self c (Map.empty, [])) = Inr (scores, data)"
proof (cases dc)
  case None
  let ?ds = "[document_base (index self) .. maximum_document (index self) - 1]"
  have "\<forall>d \<in> set ?ds. document (index self) d \<noteq> None \<and>
          (\<forall>(k, q) \<in> set (queries self).
              doc_is_in_inverted_index self q d \<longrightarrow> (\<exists>s. score self d q = Inr s))"
  proof (rule ballI, rule conjI)
    fix d assume d: "d \<in> set ?ds"
    with look None show "document (index self) d \<noteq> None"
      by (simp add: lookups_succeed_def list_all_iff)
    show "\<forall>(k, q) \<in> set (queries self).
              doc_is_in_inverted_index self q d \<longrightarrow> (\<exists>s. score self d q = Inr s)"
    proof (clarify)
      fix k q assume kq: "(k, q) \<in> set (queries self)"
        and fl: "doc_is_in_inverted_index self q d"
      from dist kq have m: "map_of (queries self) k = Some q" by (rule map_of_is_SomeI)
      have "considered self dc k d"
        using None d kq by (force simp: considered_def)
      with sc m fl show "\<exists>s. score self d q = Inr s" by blast
    qed
  qed
  from full_docs_returns [OF this, of "(Map.empty, [])"] None show ?thesis
    by (metis option.simps(4) surj_pair)
next
  case (Some c)
  have "\<forall>(k, ds) \<in> set c. \<exists>q. map_of (queries self) k = Some q \<and>
             (\<forall>d \<in> set ds. document (index self) d \<noteq> None \<and>
                (doc_is_in_inverted_index self q d \<longrightarrow> (\<exists>s. score self d q = Inr s)))"
  proof (clarify)
    fix k ds assume kds: "(k, ds) \<in> set c"
    with look Some obtain q where q: "map_of (queries self) k = Some q"
      and docs: "\<forall>d \<in> set ds. document (index self) d \<noteq> None"
      by (auto simp: lookups_succeed_def list_all_iff)
    have "\<forall>d \<in> set ds. document (index self) d \<noteq> None \<and>
                (doc_is_in_inverted_index self q d \<longrightarrow> (\<exists>s. score self d q = Inr s))"
    proof (intro ballI conjI impI)
      fix d assume d: "d \<in> set ds"
      with docs show "document (index self) d \<noteq> None" by simp
      assume fl: "doc_is_in_inverted_index self q d"
      have "considered self dc k d"
        using Some d kds by (auto simp: considered_def list_ex_iff)
      with sc q fl show "\<exists>s. score self d q = Inr s" by blast
    qed
    with q show "\<exists>q. map_of (queries self) k = Some q \<and>
             (\<forall>d \<in> set ds. document (index self) d \<noteq> None \<and>
                (doc_is_in_inverted_index self q d \<longrightarrow> (\<exists>s. score self d q = Inr s)))"
      by blast
  qed
  from rerank_queries_returns [OF this, of "(Map.empty, [])"] Some show ?thesis
    by (metis option.simps(5) surj_pair)
qed

lemma run_loop_recorded_iff:
  assumes loop: "(case dc of
        None \<Rightarrow> full_docs self [document_base (index self) ..
                                 maximum_document (index self) - 1] (Map.empty, [])
      | Some c \<Rightarrow> rerank_queries self c (Map.empty, [])) = Inr (scores, data)"
    and cons: "considered self dc qid d"
    and dist: "distinct (map fst (queries self))"
    and q: "map_of (queries self) qid = Some q"
    and doc: "document (index self) d = Some (ext, doc)"
    and uniq: "\<forall>d' doc'. document (index self) d' = Some (ext, doc') \<longrightarrow> d' = d"
  shows "(s, ext) \<in> set (dd_get data qid) \<longleftrightarrow>
         doc_is_in_inverted_index self q d \<and> score self d q = Inr s \<and> s \<noteq> Fin 0"
proof
  have ok: "recorded_ok self qid q d ext (scores, data)"
    using run_loop_recorded_ok [OF loop dist q uniq] .
  assume "(s, ext) \<in> set (dd_get data qid)"
  with ok show "doc_is_in_inverted_index self q d \<and> score self d q = Inr s \<and> s \<noteq> Fin 0"
    by (simp add: recorded_ok_def)
next
  assume "doc_is_in_inverted_index self q d \<and> score self d q = Inr s \<and> s \<noteq> Fin 0"
  with run_loop_scored [OF loop cons q doc]
  show "(s, ext) \<in> set (dd_get data qid)" by auto
qed

lemma ex_index_ext_inj:
  "\<forall>d d' e doc doc'. document (index (ex_glm l a b)) d = Some (e, doc) \<and>
      document (index (ex_glm l a b)) d' = Some (e, doc') \<longrightarrow> d = d'"
  by (auto simp: ex_index_def split: if_splits)

lemma ex_score_D1_unflagged:
  "score (ex_glm 1 0 0) 1 [6] = Inl (ValueError ''math domain error'')"
  by (simp add: score_def index_document_def ex_score_D1_fails)

lemma ex_score_D2_both:
  "score (ex_glm 1 0 0) 2 [5, 6] = Inr (Fin (ln (1 / 2) + ln (1 / 2)))"
  "Fin (ln (1 / 2) + ln (1 / 2)) \<noteq> Fin 0"
proof -
  show "score (ex_glm 1 0 0) 2 [5, 6] = Inr (Fin (ln (1 / 2) + ln (1 / 2)))"
    by (simp add: score_def index_document_def mixture_def ex_components)
  have "ln (1 / 2 :: real) < 0" by simp
  then show "Fin (ln (1 / 2) + ln (1 / 2)) \<noteq> Fin 0" by simp
qed

section \<open>Properties of the tf-idf scorer\<close>

text \<open>
  C10. With the transform \<open>log\<close>, \<open>TFIDF.score\<close> needs \<open>doc_term_freq \<ge> 1\<close>: the transform
  is \<open>1 + log(doc_term_freq)\<close>, and a call with \<open>doc_term_freq = 0\<close> (the query term absent
  from the document) raises the domain error of \<open>math.log\<close> whatever the inverse document
  frequency is, where a call with a positive frequency gets past the transform with the
  weight \<open>1 + ln f\<close>.
\<close>

theorem tfidf_log_zero_freq_domain_error:
  "tf_transform self = ''log'' \<Longrightarrow>
     TFIDF_score self d t 0 = Inl (ValueError ''math domain error'') \<and>
     log_tf 0 = Inl (ValueError ''math domain error'') \<and>
     (\<forall>f. 1 \<le> f \<longrightarrow> log_tf f = Inr (1 + ln (real_of_int f))) \<and>
     (\<forall>f. log_tf f = Inl (ValueError ''math domain error'') \<longleftrightarrow> f < 1)"
  by (auto simp: TFIDF_score_def log_tf_def math_log_int_def)

theorem tfidf_log_zero_freq_domain_error_witness:
  "tf_transform (TFIDF_init (\<lambda>t. Inr 2) ''log'') = ''log'' \<and>
   TFIDF_score (TFIDF_init (\<lambda>t. Inr 2) ''log'') 1 7 0 = Inl (ValueError ''math domain error'') \<and>
   TFIDF_score (TFIDF_init (\<lambda>t. Inr 2) ''log'') 1 7 1 = Inr 2"
proof -
  have h: "tf_transform (TFIDF_init (\<lambda>t. Inr 2) ''log'') = ''log''"
    by (simp add: TFIDF_init_def)
  have s: "TFIDF_score (TFIDF_init (\<lambda>t. Inr 2) ''log'') 1 7 1 = Inr 2"
    by (simp add: TFIDF_score_def TFIDF_init_def log_tf_def math_log_int_def)
  show ?thesis
    using h s tfidf_log_zero_freq_domain_error [OF h, of 1 7] by simp
qed

section \<open>Properties of the similarity caches\<close>



text \<open>
  C9. A candidate document whose filtered term stream has exactly one term, with a vector
  of length 300: no index pair is summed, and \<open>compute_doc_sim_sum\<close> gives the document
  the value \<open>0\<close>; it does not fail on it (also when the vector is null).
\<close>

theorem single_term_doc_sim_sum_zero:
  assumes "document (index self) d = Some (ext, doc)"
    and "filter_doc_arr doc = [t]"
    and "embedding self t = Inr v" and "length v = 300"
  shows "doc_sim_sum_of self d = Inr (Fin 0) \<and>
         (\<forall>dc dss. doc_col self = Some dc \<and> d \<in> set (unique_ids dc) \<and>
                   compute_doc_sim_sum self = Inr dss \<longrightarrow> dss d = Some (Fin 0))"
proof -
  have one: "doc_sim_sum_of self d = Inr (Fin 0)"
    using assms
    by (simp add: doc_sim_sum_of_def index_document_def set_row_def triu_indices_def np_sum_def)
  moreover have "dss d = Some (Fin 0)"
    if "doc_col self = Some dc" "d \<in> set (unique_ids dc)" "compute_doc_sim_sum self = Inr dss"
    for dc dss
    using compute_doc_sim_sum_maps [OF that(3) that(1) that(2)] one by auto
  ultimately show ?thesis by blast
qed

theorem single_term_doc_sim_sum_zero_witness:
  "filter_doc_arr [0, 6] = [6] \<and> doc_sim_sum_of (ex_glm 0 0 0) 3 = Inr (Fin 0) \<and>
   (\<exists>dss. compute_doc_sim_sum (ex_glm 0 0 0) = Inr dss \<and> dss 3 = Some (Fin 0))"
proof -
  have h1: "document (index (ex_glm 0 0 0)) 3 = Some (''D3'', [0, 6])" by simp
  have h2: "filter_doc_arr [0, 6] = [6]" by (simp add: filter_doc_arr_def)
  have h3: "embedding (ex_glm 0 0 0) 6 = Inr e2" by simp
  have h4: "length e2 = 300" by simp
  have h5: "doc_col (ex_glm 0 0 0) = Some ex_doc_col \<and> 3 \<in> set (unique_ids ex_doc_col) \<and>
     compute_doc_sim_sum (ex_glm 0 0 0) = Inr [1 \<mapsto> Fin 1, 2 \<mapsto> Fin 1, 3 \<mapsto> Fin 0]"
    by (simp add: ex_unique_ids ex_compute_doc_sim_sum)
  from single_term_doc_sim_sum_zero [OF h1 h2 h3 h4] h2 h5
  show ?thesis by blast
qed

section \<open>Properties of the document transform\<close>

text \<open>
  C2, as the specification states it, fails: each distinct term of the document would
  count once, weighted by its frequency. For the document \<open>[5, 0, 5, 5]\<close> and the query
  term \<open>5\<close> that formula gives \<open>1\<close>, and \<open>compute_doc_transform\<close> gives \<open>3\<close>.
\<close>

theorem doc_transform_distinct_terms_counterexample:
  "compute_doc_transform (ex_glm (1 / 3) (1 / 3) (1 / 3)) 5 1 [5, 0, 5, 5] = Inr (Fin 3) \<and>
   doc_transform_distinct ex_E e1 (filter_doc_arr [5, 0, 5, 5]) 1 3 = 1 \<and>
   compute_doc_transform (ex_glm (1 / 3) (1 / 3) (1 / 3)) 5 1 [5, 0, 5, 5] \<noteq>
     Inr (Fin (doc_transform_distinct ex_E e1 (filter_doc_arr [5, 0, 5, 5]) 1 3))"
  by (simp add: ex_doc_transform_D1 doc_transform_distinct_def filter_doc_arr_def ex_E_def)

text \<open>
  C2, amended. The loop of \<open>compute_doc_transform\<close> runs over every entry of the
  filtered term stream, not over its distinct terms. When the vectors of the query term
  and of the terms of the stream have length 300 and are not null, and the cached
  similarity sum times the length is a number other than 0, the result is the sum over
  the entries of the stream of the cosine similarity to the query vector times the
  frequency of the entry's term, divided by similarity sum times length. A term that
  occurs \<open>k\<close> times is so counted \<open>k\<close> times with weight \<open>k\<close>: its share is its similarity
  times \<open>k\<^sup>2\<close>.
\<close>

theorem doc_transform_counts_every_occurrence:
  assumes "embedding self q = Inr qv" and "length qv = 300" and "vnorm qv \<noteq> 0"
    and "\<forall>t \<in> set (filter_doc_arr doc).
           embedding self t = Inr (E t) \<and> length (E t) = 300 \<and> vnorm (E t) \<noteq> 0"
    and "doc_sim_sum self d = Some (Fin s)" and "doc_len self d = Some dl"
    and "s * real_of_int dl \<noteq> 0"
  shows "compute_doc_transform self q d doc =
           Inr (Fin ((\<Sum>t \<leftarrow> filter_doc_arr doc.
                        cosine (E t) qv * real (count_list (filter_doc_arr doc) t))
                     / (s * real_of_int dl))) \<and>
         (\<Sum>t \<leftarrow> filter_doc_arr doc. cosine (E t) qv * real (count_list (filter_doc_arr doc) t)) =
         (\<Sum>t \<leftarrow> remdups (filter_doc_arr doc).
             cosine (E t) qv * (real (count_list (filter_doc_arr doc) t))\<^sup>2)"
proof -
  let ?fd = "filter_doc_arr doc"
  have rows: "doc_model_rows self ?fd = Inr (map E ?fd)"
    using assms(4) by (intro doc_model_rows_ok) simp
  have nz: "\<forall>t \<in> set ?fd. vnorm (E t) \<noteq> 0" using assms(4) by simp
  have "compute_doc_transform self q d doc =
        Inr (Fin ((\<Sum>t \<leftarrow> ?fd. cosine (E t) qv * real (count_list ?fd t)) / (s * real_of_int dl)))"
    using assms(1,2,5,6) rows
      doc_transform_sum [OF nz assms(3) assms(7), of "\<lambda>t. real (count_list ?fd t)"]
    by (simp add: compute_doc_transform_def getitem_def Let_def)
  then show ?thesis
    using sum_list_positions_distinct [of "\<lambda>t. cosine (E t) qv" ?fd] by simp
qed

theorem doc_transform_counts_every_occurrence_witness:
  "compute_doc_transform (ex_glm (1 / 3) (1 / 3) (1 / 3)) 5 1 [5, 0, 5, 5] =
     Inr (Fin ((\<Sum>t \<leftarrow> [5, 5, 5]. cosine (ex_E t) e1 * real (count_list [5, 5, 5] t)) / (1 * 3))) \<and>
   (\<Sum>t \<leftarrow> [5, 5, 5]. cosine (ex_E t) e1 * real (count_list [5, 5, 5 :: int] t)) = 9"
proof -
  let ?m = "ex_glm (1 / 3) (1 / 3) (1 / 3)"
  have fd: "filter_doc_arr [5, 0, 5, 5] = [5, 5, 5]" by (simp add: filter_doc_arr_def)
  have h1: "embedding ?m 5 = Inr e1" by simp
  have h2: "length e1 = 300" by simp
  have h3: "vnorm e1 \<noteq> 0" by simp
  have h4: "\<forall>t \<in> set (filter_doc_arr [5, 0, 5, 5]).
      embedding ?m t = Inr (ex_E t) \<and> length (ex_E t) = 300 \<and> vnorm (ex_E t) \<noteq> 0"
    by (simp add: fd ex_E_def)
  have h5: "doc_sim_sum ?m 1 = Some (Fin 1)" by simp
  have h6: "doc_len ?m 1 = Some 3" by (simp add: ex_doc_len_def)
  have h7: "(1::real) * real_of_int 3 \<noteq> 0" by simp
  have v: "(\<Sum>t \<leftarrow> [5, 5, 5]. cosine (ex_E t) e1 * real (count_list [5, 5, 5 :: int] t)) = 9"
    by (simp add: ex_E_def)
  from doc_transform_counts_every_occurrence [OF h1 h2 h3 h4 h5 h6 h7] v
  show ?thesis by (simp add: fd)
qed

section \<open>Properties of the background likelihood\<close>

text \<open>
  C1. The background likelihood should be the collection frequency of the term divided
  by the sum of the frequencies of the table. The constructor takes \<open>sum(col_freq)\<close>,
  which adds the keys of the dict. For the table \<open>{5: 5, 6: 3}\<close> the constructor sets
  \<open>col_size = 11\<close> (the sum of the term identifiers) where the frequencies add to 8; the
  likelihoods of the two terms are \<open>5/11\<close> and \<open>3/11\<close>, and add to \<open>8/11\<close>, not to 1.
\<close>

theorem bg_likelihood_divides_by_sum_of_keys:
  "GLM_init ex_files ex_w2v ex_index ex_inverted_index ex_queries ex_col_freq ex_doc_len
      (1 / 3) (1 / 3) (1 / 3) (Some ex_doc_col) =
     Inr (ex_glm (1 / 3) (1 / 3) (1 / 3), ex_files_cached) \<and>
   col_size (ex_glm (1 / 3) (1 / 3) (1 / 3)) = sum_list (map fst ex_col_freq) \<and>
   sum_list (map fst ex_col_freq) = 11 \<and> sum_list (map snd ex_col_freq) = 8 \<and>
   compute_bg_likelihood (ex_glm (1 / 3) (1 / 3) (1 / 3)) 5 = Inr (5 / 11) \<and>
   compute_bg_likelihood (ex_glm (1 / 3) (1 / 3) (1 / 3)) 6 = Inr (3 / 11) \<and>
   (5 / 11 + 3 / 11 :: real) \<noteq> 1"
proof -
  have "sum_list (map fst ex_col_freq) = 11" "sum_list (map snd ex_col_freq) = 8"
    by (simp_all add: ex_col_freq_def)
  moreover have "compute_bg_likelihood (ex_glm (1 / 3) (1 / 3) (1 / 3)) 5 = Inr (5 / 11)"
    "compute_bg_likelihood (ex_glm (1 / 3) (1 / 3) (1 / 3)) 6 = Inr (3 / 11)"
    by (simp_all add: compute_bg_likelihood_def getitem_default0_def ex_col_freq_def)
  ultimately show ?thesis
    by (simp add: ex_GLM_init)
qed

section \<open>Properties of the score\<close>

text \<open>
  C7, as the specification states it, fails: with \<open>\<lambda> = 1\<close>, \<open>\<alpha> = \<beta> = 0\<close> the score
  would be the sum of \<open>log(P_term(t, d))\<close> for every document and query. The other three
  components are still computed and multiplied by \<open>0\<close>. Document 3 has one term, so its
  cached similarity sum is \<open>0\<close>; its document transform is \<open>1 / 0 = inf\<close> in numpy,
  \<open>0 * inf\<close> is NaN, and the score of the query \<open>[6]\<close> is NaN where \<open>log(P_term) = log 1\<close>.
\<close>

theorem score_boundary_nan_counterexample:
  "lamb (ex_glm 1 0 0) = 1 \<and> alph (ex_glm 1 0 0) = 0 \<and> beta (ex_glm 1 0 0) = 0 \<and>
   compute_term_likelihood (ex_glm 1 0 0) 6 3 = Inr 1 \<and>
   score (ex_glm 1 0 0) 3 [6] = Inr NaN \<and>
   score (ex_glm 1 0 0) 3 [6] \<noteq> Inr (Fin (\<Sum>t \<leftarrow> [6 :: int]. ln 1))"
  by (simp add: score_def index_document_def mixture_def ex_components)

text \<open>
  C7, amended. With \<open>\<lambda> = 1\<close>, \<open>\<alpha> = \<beta> = 0\<close>, the score is the sum over the query
  terms of \<open>log(P_term(t, d))\<close> whenever, for every query term, \<open>P_term(t, d)\<close> is positive,
  the document transform and the collection transform are computed as finite numbers, and
  the collection size is not \<open>0\<close> (so that the background likelihood is computed).
\<close>

theorem score_boundary_unsmoothed:
  assumes "lamb self = 1" and "alph self = 0" and "beta self = 0"
    and "col_size self \<noteq> 0"
    and "document (index self) d = Some (ext, doc)"
    and "\<forall>t \<in> set q. compute_term_likelihood self t d = Inr (P t) \<and> 0 < P t \<and>
           (\<exists>x. compute_doc_transform self t d doc = Inr (Fin x)) \<and>
           (\<exists>y. compute_col_transform self t = Inr (Fin y))"
  shows "score self d q = Inr (Fin (\<Sum>t \<leftarrow> q. ln (P t)))"
  using score_loop_boundary [OF assms(1-4) assms(6), of 0] assms(5)
  by (simp add: score_def index_document_def)

theorem score_boundary_unsmoothed_witness:
  "score (ex_glm 1 0 0) 2 [5, 6] = Inr (Fin (\<Sum>t \<leftarrow> [5, 6 :: int]. ln (1 / 2)))"
proof -
  let ?m = "ex_glm 1 0 0"
  have h1: "lamb ?m = 1" and h2: "alph ?m = 0" and h3: "beta ?m = 0" by simp_all
  have h0: "col_size ?m \<noteq> 0" by simp
  have h4: "document (index ?m) 2 = Some (''D2'', [5, 6, 5, 6])" by simp
  have h5: "\<forall>t \<in> set [5, 6]. compute_term_likelihood ?m t 2 = Inr ((\<lambda>t. 1 / 2) t) \<and>
           0 < (\<lambda>t. 1 / 2 :: real) t \<and>
           (\<exists>x. compute_doc_transform ?m t 2 [5, 6, 5, 6] = Inr (Fin x)) \<and>
           (\<exists>y. compute_col_transform ?m t = Inr (Fin y))"
    by (simp add: ex_components)
  from score_boundary_unsmoothed [OF h1 h2 h3 h0 h4 h5]
  show ?thesis by simp
qed

section \<open>Properties of the retrieval driver\<close>

text \<open>
  C4, as the specification states it, fails: a mixture probability \<open>\<le> 0\<close> would give a
  diagnostic naming the term and the document, and the driver would record a failure
  for that pair and go on. With \<open>\<lambda> = 1\<close>, \<open>\<alpha> = \<beta> = 0\<close> document 1 does not hold the
  query term 6, its mixture is \<open>0\<close>, and \<open>score\<close> raises the \<open>ValueError\<close> of \<open>math.log\<close>,
  whose message is \<open>math domain error\<close>. \<open>run\<close> has no handler: the run ends with that
  exception and writes nothing, and document 2, which scores, is never reached.
\<close>

theorem domain_error_aborts_run_counterexample:
  "mixture (ex_glm 1 0 0) 6 1 [5, 0, 5, 5] = Inr (Fin 0) \<and>
   score (ex_glm 1 0 0) 1 [5, 6] = Inl (ValueError ''math domain error'') \<and>
   score (ex_glm 1 0 0) 2 [5, 6] = Inr (Fin (ln (1 / 2) + ln (1 / 2))) \<and>
   run ex_write_run (ex_glm 1 0 0) ex_files_cached ''glm'' (Some [(10, [1, 2]), (11, [3])]) =
     (Inl (ValueError ''math domain error''), ex_files_cached)"
proof -
  have "score (ex_glm 1 0 0) 2 [5, 6] = Inr (Fin (ln (1 / 2) + ln (1 / 2)))"
    by (simp add: score_def index_document_def mixture_def ex_components)
  then show ?thesis
    using ex_run_aborts by (simp add: ex_score_D1_fails ex_doc_col_def)
qed

text \<open>
  C4, amended. Take a pair that \<open>run\<close> considers, whose document is in the inverted
  index for the query, with no run file yet; the four components of every query term
  are computed without an exception, and the mixture of some query term is a finite
  number \<open>\<le> 0\<close>. Then \<open>score\<close> raises \<open>ValueError\<close> with the message \<open>math domain error\<close>
  (it names neither the term nor the document), and \<open>run\<close> ends with an exception,
  returns no data and leaves the files as they were.
\<close>

theorem nonpositive_mixture_aborts_run:
  assumes "run_files fs (run_out_path model_name) = None"
    and "considered self dc query_id int_doc_id"
    and "map_of (queries self) query_id = Some query"
    and "document (index self) int_doc_id = Some (ext_doc_id, doc)"
    and "doc_is_in_inverted_index self query int_doc_id"
    and "\<forall>t \<in> set query. \<exists>c. mixture self t int_doc_id doc = Inr c"
    and "t0 \<in> set query" and "mixture self t0 int_doc_id doc = Inr (Fin p)" and "p \<le> 0"
  shows "score self int_doc_id query = Inl (ValueError ''math domain error'') \<and>
         (\<exists>e. run write_run self fs model_name dc = (Inl e, fs))"
proof -
  have "score_loop self int_doc_id doc query (Fin 0) = Inl (ValueError ''math domain error'')"
    using score_loop_domain_error [OF assms(6,7,8)] assms(9) by simp
  then have s: "score self int_doc_id query = Inl (ValueError ''math domain error'')"
    using assms(4) by (simp add: score_def index_document_def)
  from run_fails [OF assms(1-5) s] s show ?thesis by blast
qed


theorem nonpositive_mixture_aborts_run_witness:
  "score (ex_glm 1 0 0) 1 [5, 6] = Inl (ValueError ''math domain error'') \<and>
   (\<exists>e. run ex_write_run (ex_glm 1 0 0) ex_files_cached ''glm'' (Some ex_doc_col) =
          (Inl e, ex_files_cached))"
proof -
  let ?m = "ex_glm 1 0 0"
  have h1: "run_files ex_files_cached (run_out_path ''glm'') = None"
    by (simp add: ex_files_cached_def)
  have h2: "considered ?m (Some ex_doc_col) 10 1"
    by (simp add: considered_def ex_doc_col_def)
  have h3: "map_of (queries ?m) 10 = Some [5, 6]" by simp
  have h4: "document (index ?m) 1 = Some (''D1'', [5, 0, 5, 5])" by simp
  have h5: "doc_is_in_inverted_index ?m [5, 6] 1" by (simp add: ex_flags)
  have h6: "\<forall>t \<in> set [5, 6]. \<exists>c. mixture ?m t 1 [5, 0, 5, 5] = Inr c"
    by (simp add: ex_score_D1_fails)
  have h7: "(6::int) \<in> set [5, 6]" by simp
  have h8: "mixture ?m 6 1 [5, 0, 5, 5] = Inr (Fin 0)" by (rule ex_score_D1_fails)
  have h9: "(0::real) \<le> 0" by simp
  show ?thesis
    by (rule nonpositive_mixture_aborts_run [OF h1 h2 h3 h4 h5 h6 h7 h8 h9])
qed

text \<open>
  C6. When the run file of \<open>model_name\<close> exists, \<open>run\<close> returns \<open>None\<close> and the files are
  as before: nothing is scored, nothing is written. So after a run that wrote its file,
  a second run with the same \<open>model_name\<close> changes nothing.
\<close>

theorem run_existing_output_is_noop:
  "(run_files fs (run_out_path model_name) \<noteq> None \<longrightarrow>
      run write_run self fs model_name dc = (Inr None, fs)) \<and>
   (run write_run self fs model_name dc = (Inr (Some data), fs') \<longrightarrow>
      run_files fs' (run_out_path model_name) = Some (write_run model_name data 1000) \<and>
      run write_run self fs' model_name dc = (Inr None, fs'))"
proof (rule conjI; rule impI)
  assume "run_files fs (run_out_path model_name) \<noteq> None"
  then show "run write_run self fs model_name dc = (Inr None, fs)"
    by (simp add: run_def)
next
  assume "run write_run self fs model_name dc = (Inr (Some data), fs')"
  then obtain scores where
    "fs' = fs\<lparr>run_files := (run_files fs)(run_out_path model_name \<mapsto> write_run model_name data 1000)\<rparr>"
    by (rule run_success)
  then show "run_files fs' (run_out_path model_name) = Some (write_run model_name data 1000) \<and>
      run write_run self fs' model_name dc = (Inr None, fs')"
    by (simp add: run_def)
qed


theorem run_existing_output_is_noop_witness:
  "run ex_write_run (ex_glm 1 0 0) ex_files_run ''glm'' (Some ex_rerank) =
     (Inr None, ex_files_run) \<and>
   run_files (ex_files_cached\<lparr>run_files := [run_out_path ''glm'' \<mapsto> ''glm; '']\<rparr>)
     (run_out_path ''glm'') = Some (ex_write_run ''glm'' [(11, [(Fin (ln (1 / 2)), ''D2'')])] 1000) \<and>
   run ex_write_run (ex_glm 1 0 0)
       (ex_files_cached\<lparr>run_files := [run_out_path ''glm'' \<mapsto> ''glm; '']\<rparr>)
       ''glm'' (Some ex_rerank) =
     (Inr None, ex_files_cached\<lparr>run_files := [run_out_path ''glm'' \<mapsto> ''glm; '']\<rparr>)"
proof -
  have h1: "run_files ex_files_run (run_out_path ''glm'') \<noteq> None"
    by (simp add: ex_files_run_def)
  have h2: "run ex_write_run (ex_glm 1 0 0) ex_files_cached ''glm'' (Some ex_rerank) =
     (Inr (Some [(11, [(Fin (ln (1 / 2)), ''D2'')])]),
      ex_files_cached\<lparr>run_files := [run_out_path ''glm'' \<mapsto> ''glm; '']\<rparr>)"
    by (rule ex_run_rerank)
  from run_existing_output_is_noop [of ex_files_run "''glm''" ex_write_run "ex_glm 1 0 0"
      "Some ex_rerank"] h1
  have a: "run ex_write_run (ex_glm 1 0 0) ex_files_run ''glm'' (Some ex_rerank) =
     (Inr None, ex_files_run)" by blast
  from run_existing_output_is_noop [of ex_files_cached "''glm''" ex_write_run "ex_glm 1 0 0"
      "Some ex_rerank" "[(11, [(Fin (ln (1 / 2)), ''D2'')])]"
      "ex_files_cached\<lparr>run_files := [run_out_path ''glm'' \<mapsto> ''glm; '']\<rparr>"] h2
  have b: "run_files (ex_files_cached\<lparr>run_files := [run_out_path ''glm'' \<mapsto> ''glm; '']\<rparr>)
     (run_out_path ''glm'') = Some (ex_write_run ''glm'' [(11, [(Fin (ln (1 / 2)), ''D2'')])] 1000) \<and>
   run ex_write_run (ex_glm 1 0 0)
       (ex_files_cached\<lparr>run_files := [run_out_path ''glm'' \<mapsto> ''glm; '']\<rparr>)
       ''glm'' (Some ex_rerank) =
     (Inr None, ex_files_cached\<lparr>run_files := [run_out_path ''glm'' \<mapsto> ''glm; '']\<rparr>)"
    by blast
  from a b show ?thesis by blast
qed

text \<open>
  C8, as the specification states it, fails: every considered document that holds a
  query term and has a score other than \<open>0\<close> would be recorded. With \<open>\<lambda> = 1\<close>,
  \<open>\<alpha> = \<beta> = 0\<close>, document 2 is considered for query 10, is in the inverted index for its
  terms and scores \<open>2 ln (1/2)\<close>; scoring document 1 for the same query raises before
  document 2 is reached, and \<open>run\<close> ends with the exception: nothing is recorded.
\<close>

theorem scored_candidate_unrecorded_counterexample:
  "considered (ex_glm 1 0 0) (Some ex_doc_col) 10 2 \<and>
   map_of (queries (ex_glm 1 0 0)) 10 = Some [5, 6] \<and>
   doc_is_in_inverted_index (ex_glm 1 0 0) [5, 6] 2 \<and>
   score (ex_glm 1 0 0) 2 [5, 6] = Inr (Fin (ln (1 / 2) + ln (1 / 2))) \<and>
   Fin (ln (1 / 2) + ln (1 / 2)) \<noteq> Fin 0 \<and>
   run ex_write_run (ex_glm 1 0 0) ex_files_cached ''glm'' (Some ex_doc_col) =
     (Inl (ValueError ''math domain error''), ex_files_cached)"
  using ex_score_D2_both ex_run_aborts
  by (simp add: considered_def ex_doc_col_def ex_flags)

text \<open>
  C8, amended. Let no run file exist, let every query and document that \<open>run\<close> looks up
  be found, the queries have distinct identifiers and the documents distinct external
  identifiers, and let \<open>score\<close> raise no exception on the considered pairs whose document
  is in the inverted index for a query term. Then \<open>run\<close> returns its data and writes the
  run file, and for every considered pair the score with the external identifier is in
  the list of the query if and only if the document is in the inverted index for one of
  the query terms, the score is the one \<open>score\<close> computes, and it is not \<open>0\<close>. A document
  that fails either condition is skipped and is no error: nothing is asked of its score,
  which is not computed when the document is not in the inverted index.
\<close>

theorem run_returns_and_records_scored_candidates:
  assumes "run_files fs (run_out_path model_name) = None"
    and "lookups_succeed self dc"
    and "distinct (map fst (queries self))"
    and "\<forall>d d' e doc doc'. document (index self) d = Some (e, doc) \<and>
           document (index self) d' = Some (e, doc') \<longrightarrow> d = d'"
    and "\<forall>qid d q. considered self dc qid d \<and> map_of (queries self) qid = Some q \<and>
           doc_is_in_inverted_index self q d \<longrightarrow> (\<exists>s. score self d q = Inr s)"
  shows "\<exists>data.
           run write_run self fs model_name dc =
             (Inr (Some data),
              fs\<lparr>run_files := (run_files fs)(run_out_path model_name \<mapsto>
                                   write_run model_name data 1000)\<rparr>) \<and>
           (\<forall>query_id int_doc_id query ext_doc_id doc s.
               considered self dc query_id int_doc_id \<and>
               map_of (queries self) query_id = Some query \<and>
               document (index self) int_doc_id = Some (ext_doc_id, doc) \<longrightarrow>
               ((s, ext_doc_id) \<in> set (dd_get data query_id) \<longleftrightarrow>
                doc_is_in_inverted_index self query int_doc_id \<and>
                score self int_doc_id query = Inr s \<and> s \<noteq> Fin 0))"
proof -
  from run_loop_returns [OF assms(2,3,5)] obtain scores data where loop:
    "(case dc of
        None \<Rightarrow> full_docs self [document_base (index self) ..
                                 maximum_document (index self) - 1] (Map.empty, [])
      | Some c \<Rightarrow> rerank_queries self c (Map.empty, [])) = Inr (scores, data)"
    by blast
  have r: "run write_run self fs model_name dc =
             (Inr (Some data),
              fs\<lparr>run_files := (run_files fs)(run_out_path model_name \<mapsto>
                                   write_run model_name data 1000)\<rparr>)"
    using assms(1) loop by (simp add: run_def)
  have "(s, ext) \<in> set (dd_get data qid) \<longleftrightarrow>
          doc_is_in_inverted_index self q d \<and> score self d q = Inr s \<and> s \<noteq> Fin 0"
    if "considered self dc qid d" "map_of (queries self) qid = Some q"
      "document (index self) d = Some (ext, doc)" for qid d q ext doc s
  proof -
    have "\<forall>d' doc'. document (index self) d' = Some (ext, doc') \<longrightarrow> d' = d"
      using assms(4) that(3) by blast
    from run_loop_recorded_iff [OF loop that(1) assms(3) that(2,3) this] show ?thesis .
  qed
  with r show ?thesis by blast
qed

theorem run_returns_and_records_scored_candidates_witness:
  "run ex_write_run (ex_glm 1 0 0) ex_files_cached ''glm'' (Some ex_rerank) =
     (Inr (Some [(11, [(Fin (ln (1 / 2)), ''D2'')])]),
      ex_files_cached\<lparr>run_files := [run_out_path ''glm'' \<mapsto> ''glm; '']\<rparr>) \<and>
   (\<exists>data. fst (run ex_write_run (ex_glm 1 0 0) ex_files_cached ''glm'' (Some ex_rerank)) =
             Inr (Some data) \<and>
           (Fin (ln (1 / 2)), ''D2'') \<in> set (dd_get data 11) \<and>
           (\<forall>s. (s, ''D1'') \<notin> set (dd_get data 11))) \<and>
   \<not> doc_is_in_inverted_index (ex_glm 1 0 0) [6] 1 \<and>
   score (ex_glm 1 0 0) 1 [6] = Inl (ValueError ''math domain error'')"
proof -
  let ?m = "ex_glm 1 0 0"
  have h1: "run_files ex_files_cached (run_out_path ''glm'') = None"
    by (simp add: ex_files_cached_def)
  have h2: "lookups_succeed ?m (Some ex_rerank)"
    by (simp add: lookups_succeed_def ex_rerank_def)
  have h3: "distinct (map fst (queries ?m))" by (simp add: ex_queries_def)
  have h5: "\<forall>qid d q. considered ?m (Some ex_rerank) qid d \<and> map_of (queries ?m) qid = Some q \<and>
           doc_is_in_inverted_index ?m q d \<longrightarrow> (\<exists>s. score ?m d q = Inr s)"
    by (auto simp: considered_def ex_rerank_def ex_flags ex_score_D2)
  from run_returns_and_records_scored_candidates [OF h1 h2 h3 ex_index_ext_inj h5,
      of ex_write_run]
  obtain data where r: "run ex_write_run ?m ex_files_cached ''glm'' (Some ex_rerank) =
             (Inr (Some data),
              ex_files_cached\<lparr>run_files := (run_files ex_files_cached)(run_out_path ''glm'' \<mapsto>
                                   ex_write_run ''glm'' data 1000)\<rparr>)"
    and iff: "\<And>query_id int_doc_id query ext_doc_id doc s.
               considered ?m (Some ex_rerank) query_id int_doc_id \<Longrightarrow>
               map_of (queries ?m) query_id = Some query \<Longrightarrow>
               document (index ?m) int_doc_id = Some (ext_doc_id, doc) \<Longrightarrow>
               ((s, ext_doc_id) \<in> set (dd_get data query_id) \<longleftrightarrow>
                doc_is_in_inverted_index ?m query int_doc_id \<and>
                score ?m int_doc_id query = Inr s \<and> s \<noteq> Fin 0)"
    by blast
  have c: "considered ?m (Some ex_rerank) 11 2" "considered ?m (Some ex_rerank) 11 1"
    by (simp_all add: considered_def ex_rerank_def)
  have q: "map_of (queries ?m) 11 = Some [6]" by simp
  have d: "document (index ?m) 2 = Some (''D2'', [5, 6, 5, 6])"
    "document (index ?m) 1 = Some (''D1'', [5, 0, 5, 5])" by simp_all
  have in2: "(Fin (ln (1 / 2)), ''D2'') \<in> set (dd_get data 11)"
    using iff [OF c(1) q d(1), of "Fin (ln (1 / 2))"] by (simp add: ex_flags ex_score_D2)
  have out1: "\<forall>s. (s, ''D1'') \<notin> set (dd_get data 11)"
    using iff [OF c(2) q d(2)] by (simp add: ex_flags)
  from r in2 out1 have "\<exists>data. fst (run ex_write_run ?m ex_files_cached ''glm'' (Some ex_rerank)) =
             Inr (Some data) \<and>
           (Fin (ln (1 / 2)), ''D2'') \<in> set (dd_get data 11) \<and>
           (\<forall>s. (s, ''D1'') \<notin> set (dd_get data 11))"
    by auto
  then show ?thesis
    using ex_run_rerank ex_score_D1_unflagged by (simp add: ex_flags)
qed

section \<open>Properties of the configuration\<close>

text \<open>
  C5, as the specification states it, fails: invalid mixture weights would be reported
  at once, and nothing written. The constructor takes \<open>\<lambda> = -1\<close>, \<open>\<alpha> = \<beta> = 3/2\<close> like any
  other weights, and the run with them writes its file.
\<close>

theorem invalid_weights_accepted_counterexample:
  "GLM_init ex_files ex_w2v ex_index ex_inverted_index ex_queries ex_col_freq ex_doc_len
      (- 1) (3 / 2) (3 / 2) (Some ex_doc_col) =
     Inr (ex_glm (- 1) (3 / 2) (3 / 2), ex_files_cached) \<and>
   lamb (ex_glm (- 1) (3 / 2) (3 / 2)) < 0 \<and>
   lamb (ex_glm (- 1) (3 / 2) (3 / 2)) + alph (ex_glm (- 1) (3 / 2) (3 / 2)) +
     beta (ex_glm (- 1) (3 / 2) (3 / 2)) > 1 \<and>
   run ex_write_run (ex_glm (- 1) (3 / 2) (3 / 2)) ex_files_cached ''glm'' (Some ex_rerank) =
     (Inr (Some [(11, [(Fin (ln (8 / 11)), ''D2'')])]),
      ex_files_cached\<lparr>run_files := [run_out_path ''glm'' \<mapsto> ''glm; '']\<rparr>)"
proof -
  have "run ex_write_run (ex_glm (- 1) (3 / 2) (3 / 2)) ex_files_cached ''glm'' (Some ex_rerank) =
     (Inr (Some [(11, [(Fin (ln (8 / 11)), ''D2'')])]),
      ex_files_cached\<lparr>run_files := [run_out_path ''glm'' \<mapsto> ''glm; '']\<rparr>)"
    by (simp add: run_def ex_rerank_def ex_files_cached_def getitem_def index_document_def
        visit_def ex_flags ex_score_D2_bad_weights ex_write_run_def Let_def)
  then show ?thesis
    by (simp add: ex_GLM_init)
qed

text \<open>
  C5, amended. The tf-idf scorer stores the transform name unchecked, and every call of
  \<open>score\<close> with a name other than \<open>log\<close> raises \<open>ValueError\<close>. The mixture scorer does not
  check its weights: the constructor fails or succeeds as it does with the weights
  \<open>0, 0, 0\<close>, and on success the object differs only in the three weights stored.
\<close>

theorem configuration_errors_checked:
  "tf_transform (TFIDF_init idf name) = name \<and>
   (name \<noteq> ''log'' \<longrightarrow>
      TFIDF_score (TFIDF_init idf name) d t f = Inl (ValueError (unsupported_msg name))) \<and>
   GLM_init fs w idx ii qs cf dl l a b dc =
     (case GLM_init fs w idx ii qs cf dl 0 0 0 dc of
        Inl e \<Rightarrow> Inl e
      | Inr (m, fs') \<Rightarrow> Inr (m\<lparr>lamb := l, alph := a, beta := b\<rparr>, fs'))"
  using GLM_init_weights [of fs w idx ii qs cf dl l a b dc]
  by (simp add: TFIDF_init_def TFIDF_score_def)

theorem configuration_errors_checked_witness:
  "TFIDF_score (TFIDF_init (\<lambda>t. Inr 2) ''bm25'') 1 7 3 =
     Inl (ValueError ''Unsupported term frequency transformation specified: bm25'') \<and>
   GLM_init ex_files ex_w2v ex_index ex_inverted_index ex_queries ex_col_freq ex_doc_len
      (- 1) (3 / 2) (3 / 2) (Some ex_doc_col) =
     Inr (ex_glm 0 0 0\<lparr>lamb := - 1, alph := 3 / 2, beta := 3 / 2\<rparr>, ex_files_cached)"
proof -
  have h: "''bm25'' \<noteq> ''log''" by simp
  from configuration_errors_checked [of "\<lambda>t. Inr 2" "''bm25''" 1 7 3 ex_files ex_w2v ex_index
      ex_inverted_index ex_queries ex_col_freq ex_doc_len "- 1" "3 / 2" "3 / 2" "Some ex_doc_col"] h
  show ?thesis
    by (simp add: ex_GLM_init unsupported_msg_def)
qed

end
